theory Spec2Isabelle
  imports Complex_Main
begin

section \<open>Host values, exceptions and I/O objects\<close>

text \<open>
  The backend of \<^verbatim>\<open>ext/polyphony/backend_libev.c\<close> works on Ruby values
  (\<^verbatim>\<open>VALUE\<close>). Only the shapes the backend inspects are modelled. An exception object is
  a value like any other: the scheduler hands it to a fiber as a resume value, and the
  operation raises it. A timeout sentinel carries the number of the object, since the code
  compares sentinels by identity.
\<close>

datatype exn =
    SystemCallError int
  | RuntimeError string
  | TypeError
  | TimeoutException nat
  | OtherException string
  | UndefinedBehaviour

text \<open>
  \<open>UndefinedBehaviour\<close> is no exception of the host. It marks a run that has left what C
  and the host define, by a store outside the buffer it addresses or by a negative string
  length; what the program does from there on is not modelled.
\<close>

text \<open>
  An I/O object has a file descriptor, may wrap another I/O object (the instance variable
  \<^verbatim>\<open>@io\<close>, read by \<^verbatim>\<open>rb_ivar_get(io, ID_ivar_io)\<close>) and may have a separate object for
  writing (\<^verbatim>\<open>rb_io_get_write_io\<close>).
\<close>

datatype io = IO (io_fd: int) (ivar_io: "io option") (write_io: "io option")

datatype val =
    Qnil
  | Qfalse
  | Qtrue
  | VInt int
  | VStr string
  | VSym string
  | VExc exn
  | VIO io
  | VAry "val list"

definition RTEST :: "val \<Rightarrow> bool" where
  "RTEST v = (v \<noteq> Qnil \<and> v \<noteq> Qfalse)"

text \<open>
  \<^verbatim>\<open>TEST_EXCEPTION\<close> and \<^verbatim>\<open>RAISE_EXCEPTION\<close> are macros of \<^verbatim>\<open>polyphony.h\<close>: the first
  tests whether a value is an exception object, the second raises it. Raising a value that
  is no exception is a type error of the host.
\<close>

definition TEST_EXCEPTION :: "val \<Rightarrow> bool" where
  "TEST_EXCEPTION v = (case v of VExc e \<Rightarrow> True | _ \<Rightarrow> False)"

definition RAISE_EXCEPTION :: "val \<Rightarrow> exn" where
  "RAISE_EXCEPTION v = (case v of VExc e \<Rightarrow> e | _ \<Rightarrow> TypeError)"

text \<open>
  C integers. The backend is built for platforms where an \<^verbatim>\<open>int\<close> has 32 bits and a
  \<^verbatim>\<open>long\<close>, a \<^verbatim>\<open>ssize_t\<close> and a \<^verbatim>\<open>size_t\<close> have 64. A value stored in an \<^verbatim>\<open>int\<close> is
  reduced modulo \<open>2 ^ 32\<close> into the range from \<open>- 2 ^ 31\<close> to \<open>2 ^ 31 - 1\<close>: that is
  \<open>c_int\<close>. The length of a string is a \<^verbatim>\<open>long\<close>; lengths and their sums are below
  \<open>2 ^ 63\<close> and are unbounded integers here. An argument the host converts with
  \<^verbatim>\<open>NUM2INT\<close> is a C \<^verbatim>\<open>int\<close>.
\<close>

definition c_int :: "int \<Rightarrow> int" where
  "c_int n = (n + 2147483648) mod 4294967296 - 2147483648"

text \<open>
  \<^verbatim>\<open>INT2NUM\<close> boxes a C \<^verbatim>\<open>int\<close>: what is handed to it is converted to \<^verbatim>\<open>int\<close> first, also
  where the code hands it a \<^verbatim>\<open>long\<close> (lines 490, 565 and 782).
\<close>

definition INT2NUM :: "int \<Rightarrow> val" where
  "INT2NUM n = VInt (c_int n)"

definition rb_io_get_write_io :: "io \<Rightarrow> io" where
  "rb_io_get_write_io x = (case write_io x of None \<Rightarrow> x | Some y \<Rightarrow> y)"

text \<open>The error numbers of \<^verbatim>\<open>errno.h\<close>, with their Linux values.\<close>

definition EINTR :: int where "EINTR = 4"
definition EAGAIN :: int where "EAGAIN = 11"
definition EWOULDBLOCK :: int where "EWOULDBLOCK = 11"
definition EINPROGRESS :: int where "EINPROGRESS = 115"

section \<open>Doubles\<close>

text \<open>
  A C \<^verbatim>\<open>double\<close> (IEEE 754 binary64) is a finite number, an infinity or a NaN.
  \<open>Finite m e\<close> is the number \<open>m * 2 ^ e\<close>; a finite double is a number that can be written
  so with \<open>\<bar>m\<bar> < 2 ^ 53\<close> and \<open>e\<close> from \<open>- 1074\<close> to \<open>971\<close>. The operations below go by
  the number, not by the way it is written. The sign of a zero is not kept: no operation
  of the timer loop tells \<open>- 0\<close> from \<open>+ 0\<close>.
\<close>

datatype double = Finite int int | PlusInfinity | MinusInfinity | NaN

text \<open>The number of bits of a positive integer.\<close>

function bit_length :: "int \<Rightarrow> int" where
  "bit_length n = (if n \<le> 0 then 0 else 1 + bit_length (n div 2))"
  by pat_completeness auto

termination bit_length
  by (relation "measure nat") auto

declare bit_length.simps [simp del]

text \<open>
  \<open>round_double m e\<close> is the double nearest to \<open>m * 2 ^ e\<close>, the one with the even mantissa
  when two are equally near (the rounding mode a C program starts in). \<open>s\<close> is the number
  of low bits of \<open>m\<close> a double cannot keep: those beyond the 53 of the mantissa and those
  below \<open>2 ^ - 1074\<close>. A result of \<open>2 ^ 1024\<close> or more is an infinity.
\<close>

definition round_double :: "int \<Rightarrow> int \<Rightarrow> double" where
  "round_double m e =
     (let s = max (bit_length \<bar>m\<bar> - 53) (- 1074 - e);
          q = \<bar>m\<bar> div 2 ^ nat s;
          r = \<bar>m\<bar> mod 2 ^ nat s;
          half = 2 ^ (nat s - 1);
          m1 = (if s \<le> 0 then m
                else if half < r \<or> (r = half \<and> odd q) then sgn m * (q + 1)
                else sgn m * q);
          e1 = (if s \<le> 0 then e else e + s)
      in if 1024 < bit_length \<bar>m1\<bar> + e1
         then (if 0 < m1 then PlusInfinity else MinusInfinity)
         else Finite m1 e1)"

fun double_add :: "double \<Rightarrow> double \<Rightarrow> double" where
  "double_add (Finite a ea) (Finite b eb) =
     (let e = min ea eb in round_double (a * 2 ^ nat (ea - e) + b * 2 ^ nat (eb - e)) e)"
| "double_add NaN y = NaN"
| "double_add x NaN = NaN"
| "double_add PlusInfinity MinusInfinity = NaN"
| "double_add MinusInfinity PlusInfinity = NaN"
| "double_add PlusInfinity y = PlusInfinity"
| "double_add x PlusInfinity = PlusInfinity"
| "double_add MinusInfinity y = MinusInfinity"
| "double_add x MinusInfinity = MinusInfinity"

fun double_neg :: "double \<Rightarrow> double" where
  "double_neg (Finite a ea) = Finite (- a) ea"
| "double_neg PlusInfinity = MinusInfinity"
| "double_neg MinusInfinity = PlusInfinity"
| "double_neg NaN = NaN"

definition double_sub :: "double \<Rightarrow> double \<Rightarrow> double" where
  "double_sub x y = double_add x (double_neg y)"

text \<open>The comparisons \<^verbatim>\<open><=\<close>, \<^verbatim>\<open><\<close> and \<^verbatim>\<open>==\<close>: all are false when an operand is a NaN.\<close>

fun double_le :: "double \<Rightarrow> double \<Rightarrow> bool" where
  "double_le (Finite a ea) (Finite b eb) =
     (let e = min ea eb in a * 2 ^ nat (ea - e) \<le> b * 2 ^ nat (eb - e))"
| "double_le NaN y = False"
| "double_le x NaN = False"
| "double_le MinusInfinity y = True"
| "double_le x PlusInfinity = True"
| "double_le PlusInfinity y = False"
| "double_le x MinusInfinity = False"

fun double_lt :: "double \<Rightarrow> double \<Rightarrow> bool" where
  "double_lt (Finite a ea) (Finite b eb) =
     (let e = min ea eb in a * 2 ^ nat (ea - e) < b * 2 ^ nat (eb - e))"
| "double_lt NaN y = False"
| "double_lt x NaN = False"
| "double_lt PlusInfinity y = False"
| "double_lt x MinusInfinity = False"
| "double_lt MinusInfinity y = True"
| "double_lt x PlusInfinity = True"

fun double_eq :: "double \<Rightarrow> double \<Rightarrow> bool" where
  "double_eq (Finite a ea) (Finite b eb) =
     (let e = min ea eb in a * 2 ^ nat (ea - e) = b * 2 ^ nat (eb - e))"
| "double_eq NaN y = False"
| "double_eq x NaN = False"
| "double_eq x y = (x = y)"

definition double_of_int :: "int \<Rightarrow> double" where
  "double_of_int n = round_double n 0"

section \<open>The environment: kernel, event loop and scheduler\<close>

text \<open>
  One fiber's view of the world. The kernel and the other fibers are the environment:
  \<^item> \<open>sys_results\<close> are the outcomes of the system calls to come, in order: \<open>Ok k\<close> lets the
    call transfer up to \<open>k\<close> bytes, \<open>Err e\<close> makes it fail with \<open>errno = e\<close>;
  \<^item> \<open>resume_values\<close> are the values the scheduler resumes the fiber with at the switch
    points to come (\<^verbatim>\<open>backend_await\<close>, \<^verbatim>\<open>backend_snooze\<close>);
  \<^item> \<open>readable fd\<close> are the bytes still to be read from \<open>fd\<close>, \<open>written fd\<close> the bytes
    written to it so far; \<open>pipe_peer\<close> maps the write end of a pipe to its read end;
  \<^item> \<open>io_watchers\<close>, \<open>timers\<close> and \<open>sleep_timers\<close> are the watchers active in the event
    loop, and \<open>runqueue\<close> holds the fibers a watcher callback made runnable, with their
    resume values;
  \<^item> \<open>clock\<close> is what \<^verbatim>\<open>current_time()\<close> reads, and \<open>next_object\<close> numbers the next object
    the host allocates.
  A call that finds its list empty never returns: the operation's result is \<open>None\<close>.
\<close>

datatype sysres = Ok nat | Err int

datatype ev = EV_READ | EV_WRITE

text \<open>
  A timer watcher of a timeout, active in the event loop (\<^verbatim>\<open>struct libev_timeout\<close>): the
  delay, the fiber to wake and the value to wake it with. The delay of a timeout is only
  stored, never computed with; it is a real number here.
\<close>

record timer_watcher =
  timer_after :: real
  timer_fiber :: nat
  timer_resume_value :: val

text \<open>
  The timer watcher of the timer loop (\<^verbatim>\<open>struct libev_timer\<close>): the delay, a double
  the loop computes, and the fiber to wake.
\<close>

record libev_timer =
  sleep_after :: double
  sleep_fiber :: nat

record world =
  sys_results :: "sysres list"
  resume_values :: "val list"
  errno :: int
  readable :: "int \<Rightarrow> string"
  written :: "int \<Rightarrow> string"
  pipe_peer :: "int \<Rightarrow> int option"
  next_fd :: int
  op_count :: nat
  io_watchers :: "(int \<times> ev) list"
  timers :: "timer_watcher set"
  sleep_timers :: "libev_timer set"
  clock :: double
  next_object :: nat
  current_fiber :: nat
  runqueue :: "(nat \<times> val) list"

definition transmit :: "int \<Rightarrow> string \<Rightarrow> world \<Rightarrow> world" where
  "transmit fd bytes w =
     w\<lparr>written := (written w)(fd := written w fd @ bytes),
       readable := (case pipe_peer w fd of
                      None \<Rightarrow> readable w
                    | Some r \<Rightarrow> (readable w)(r := readable w r @ bytes))\<rparr>"

text \<open>\<^verbatim>\<open>write(fd, buf, count)\<close>: the kernel takes a prefix of the \<open>count\<close> bytes at \<open>buf\<close>.\<close>

definition sys_write :: "int \<Rightarrow> string \<Rightarrow> world \<Rightarrow> (int \<times> world) option" where
  "sys_write fd bytes w =
     (case sys_results w of
        [] \<Rightarrow> None
      | Err e # rs \<Rightarrow> Some (- 1, w\<lparr>sys_results := rs, errno := e\<rparr>)
      | Ok k # rs \<Rightarrow>
          Some (int (min k (length bytes)),
                transmit fd (take (min k (length bytes)) bytes) (w\<lparr>sys_results := rs\<rparr>)))"

text \<open>
  Modelled from the spec: \<^verbatim>\<open>backend_await\<close> and \<^verbatim>\<open>backend_snooze\<close> of
  \<^verbatim>\<open>backend_common.c\<close>, which is not among the sources. The spec: await is a fiber switch
  without self-scheduling that returns whatever resume value the waking callback supplies;
  snooze schedules the current fiber at the back of the run queue and switches. Either way
  the fiber continues with the next resume value the scheduler delivers.
\<close>

definition backend_await :: "world \<Rightarrow> (val \<times> world) option" where
  "backend_await w =
     (case resume_values w of
        [] \<Rightarrow> None
      | v # vs \<Rightarrow> Some (v, w\<lparr>resume_values := vs\<rparr>))"

definition backend_snooze :: "world \<Rightarrow> (val \<times> world) option" where
  "backend_snooze w =
     (case resume_values w of
        [] \<Rightarrow> None
      | v # vs \<Rightarrow> Some (v, w\<lparr>resume_values := vs\<rparr>))"

subsection \<open>Waiting for one file descriptor\<close>

record libev_io =
  io_fiber :: "nat option"
  io_watch :: "(int \<times> ev) option"

definition ev_io_start :: "libev_io \<Rightarrow> world \<Rightarrow> world" where
  "ev_io_start watcher w =
     (case io_watch watcher of
        None \<Rightarrow> w
      | Some x \<Rightarrow> w\<lparr>io_watchers := x # io_watchers w\<rparr>)"

definition ev_io_stop :: "libev_io \<Rightarrow> world \<Rightarrow> world" where
  "ev_io_stop watcher w =
     (case io_watch watcher of
        None \<Rightarrow> w
      | Some x \<Rightarrow> w\<lparr>io_watchers := remove1 x (io_watchers w)\<rparr>)"

definition libev_wait_fd_with_watcher ::
  "int \<Rightarrow> libev_io \<Rightarrow> ev \<Rightarrow> world \<Rightarrow> ((val \<times> libev_io) \<times> world) option" where
  "libev_wait_fd_with_watcher fd watcher events w =
     (let watcher1 =
            (if io_fiber watcher = None
             then watcher\<lparr>io_fiber := Some (current_fiber w), io_watch := Some (fd, events)\<rparr>
             else watcher)
      in case backend_await (ev_io_start watcher1 w) of
           None \<Rightarrow> None
         | Some (switchpoint_result, w1) \<Rightarrow>
             Some ((switchpoint_result, watcher1), ev_io_stop watcher1 w1))"

section \<open>write\<close>

text \<open>
  \<^verbatim>\<open>Backend_write\<close>, lines 446 to 493. The loop's variables are \<open>buf\<close> (an offset into the
  string), \<open>left\<close> and the watcher. The loop ends with an exception (\<open>Inl\<close>) or with the
  watcher as the loop left it.
\<close>

function write_loop ::
  "int \<Rightarrow> string \<Rightarrow> nat \<Rightarrow> int \<Rightarrow> libev_io \<Rightarrow> world \<Rightarrow> ((exn + libev_io) \<times> world) option" where
  "write_loop fd str buf left watcher w =
     (if left > 0 then
        (case sys_write fd (take (nat left) (drop buf str)) (w\<lparr>op_count := op_count w + 1\<rparr>) of
           None \<Rightarrow> None
         | Some (n, w1) \<Rightarrow>
             if n < 0 then
               (let e = errno w1 in
                if e \<noteq> EWOULDBLOCK \<and> e \<noteq> EAGAIN then Some (Inl (SystemCallError e), w1)
                else
                  (case libev_wait_fd_with_watcher fd watcher EV_WRITE w1 of
                     None \<Rightarrow> None
                   | Some ((switchpoint_result, watcher1), w2) \<Rightarrow>
                       if TEST_EXCEPTION switchpoint_result
                       then Some (Inl (RAISE_EXCEPTION switchpoint_result), w2)
                       else write_loop fd str buf left watcher1 w2))
             else write_loop fd str (buf + nat n) (left - n) watcher w1)
      else Some (Inr watcher, w))"
  by pat_completeness auto

lemma sys_write_shorter:
  "sys_write fd bytes w = Some (n, w1) \<Longrightarrow> length (sys_results w1) < length (sys_results w)"
  by (auto simp: sys_write_def transmit_def split: list.splits sysres.splits)

lemma libev_wait_fd_sys_results:
  "libev_wait_fd_with_watcher fd watcher events w = Some (r, w1) \<Longrightarrow>
   sys_results w1 = sys_results w"
  by (auto simp: libev_wait_fd_with_watcher_def backend_await_def ev_io_start_def ev_io_stop_def
      Let_def split: list.splits option.splits if_splits)

termination write_loop
proof (relation "measure (\<lambda>(fd, str, buf, left, watcher, w). length (sys_results w))",
    goal_cases)
  case 1
  show ?case by simp
next
  case (2 fd str buf left watcher w x2 n w1 e x2a x1 w2 switchpoint_result watcher1)
  then show ?case
    using sys_write_shorter libev_wait_fd_sys_results by fastforce
next
  case (3 fd str buf left watcher w x2 n w1)
  then show ?case
    using sys_write_shorter by fastforce
qed

declare write_loop.simps [simp del]

definition Backend_write :: "io \<Rightarrow> string \<Rightarrow> world \<Rightarrow> ((exn + val) \<times> world) option" where
  "Backend_write io_arg str w =
     (let len = int (length str);
          left = len;
          io1 = (case ivar_io io_arg of None \<Rightarrow> io_arg | Some underlying_io \<Rightarrow> underlying_io);
          io2 = rb_io_get_write_io io1;
          watcher = \<lparr>io_fiber = None, io_watch = None\<rparr>
      in case write_loop (io_fd io2) str 0 left watcher w of
           None \<Rightarrow> None
         | Some (Inl e, w1) \<Rightarrow> Some (Inl e, w1)
         | Some (Inr watcher1, w1) \<Rightarrow>
             if io_fiber watcher1 = None then
               (case backend_snooze w1 of
                  None \<Rightarrow> None
                | Some (switchpoint_result, w2) \<Rightarrow>
                    if TEST_EXCEPTION switchpoint_result
                    then Some (Inl (RAISE_EXCEPTION switchpoint_result), w2)
                    else Some (Inr (INT2NUM len), w2))
             else Some (Inr (INT2NUM len), w1))"

text \<open>The descriptor \<^verbatim>\<open>Backend_write\<close> writes to: one level of unwrapping, then the write side.\<close>

definition write_fd :: "io \<Rightarrow> int" where
  "write_fd x = io_fd (rb_io_get_write_io (case ivar_io x of None \<Rightarrow> x | Some u \<Rightarrow> u))"

section \<open>read and recv\<close>

text \<open>
  \<^verbatim>\<open>read(fd, buf, count)\<close>: the kernel delivers a prefix of the bytes still to be read, at
  most \<open>count\<close> of them; zero bytes is end of file.
\<close>

definition sys_read :: "int \<Rightarrow> nat \<Rightarrow> world \<Rightarrow> ((int \<times> string) \<times> world) option" where
  "sys_read fd count w =
     (case sys_results w of
        [] \<Rightarrow> None
      | Err e # rs \<Rightarrow> Some ((- 1, []), w\<lparr>sys_results := rs, errno := e\<rparr>)
      | Ok k # rs \<Rightarrow>
          (let n = min (min k count) (length (readable w fd))
           in Some ((int n, take n (readable w fd)),
                    w\<lparr>sys_results := rs, readable := (readable w)(fd := drop n (readable w fd))\<rparr>)))"

text \<open>
  Modelled from the spec: \<^verbatim>\<open>io_setstrbuf\<close> and \<^verbatim>\<open>io_set_read_length\<close> of
  \<^verbatim>\<open>backend_common.c\<close>, which is not among the sources. The spec lists them as the host's
  string-buffer manipulation (pointer, length, resize, set-length): the first makes sure the
  buffer holds at least the given number of bytes, allocating it when the caller passed
  none; the second sets the string's length. The buffer's memory is a list of bytes; bytes
  the program never wrote are padding.
\<close>

definition io_setstrbuf :: "string option \<Rightarrow> nat \<Rightarrow> string" where
  "io_setstrbuf str n =
     (case str of
        None \<Rightarrow> replicate n (CHR 0x00)
      | Some s \<Rightarrow> if n \<le> length s then s else s @ replicate (n - length s) (CHR 0x00))"

definition io_set_read_length :: "string \<Rightarrow> nat \<Rightarrow> string" where
  "io_set_read_length mem n = take n mem"

text \<open>
  The kernel stores the bytes it read at offset \<open>buf\<close> of the buffer. The offset is not
  negative where \<open>store\<close> is used.
\<close>

definition store :: "string \<Rightarrow> nat \<Rightarrow> string \<Rightarrow> string" where
  "store mem buf bytes = take buf mem @ bytes @ drop (buf + length bytes) mem"

text \<open>
  Lines 270 to 275: a position outside the buffer is clamped to its end. The length of the
  buffer is stored in an \<^verbatim>\<open>int\<close> (line 272), so for a buffer of \<open>2 ^ 31\<close> bytes or more
  \<open>current_len\<close> is not its length and can be negative, and \<open>buf_pos\<close> with it.
\<close>

definition read_buf_pos :: "string option \<Rightarrow> int \<Rightarrow> int" where
  "read_buf_pos str pos =
     (case str of
        Some s \<Rightarrow>
          (let current_len = c_int (int (length s))
           in if pos < 0 \<or> pos > current_len then current_len else pos)
      | None \<Rightarrow> 0)"

text \<open>
  The loop of \<^verbatim>\<open>Backend_read\<close>, lines 292 to 322. Its variables: the buffer's memory, the
  offset \<open>buf\<close> into it, \<open>len\<close>, \<open>total\<close> (here \<open>total_c\<close>) and the watcher. It ends with
  an exception or with the memory and \<open>total\<close>. A \<^verbatim>\<open>read\<close> that delivers bytes to an address
  before the buffer (a negative \<open>buf\<close>) is undefined.
\<close>

function read_loop ::
  "int \<Rightarrow> bool \<Rightarrow> bool \<Rightarrow> int \<Rightarrow> string \<Rightarrow> int \<Rightarrow> int \<Rightarrow> int \<Rightarrow> libev_io \<Rightarrow> world \<Rightarrow>
   ((exn + (string \<times> int)) \<times> world) option" where
  "read_loop fd dynamic_len read_to_eof buf_pos mem buf len total_c watcher w =
     (case sys_read fd (nat (len - total_c)) (w\<lparr>op_count := op_count w + 1\<rparr>) of
        None \<Rightarrow> None
      | Some ((n, bytes), w1) \<Rightarrow>
          if n < 0 then
            (let e = errno w1 in
             if e \<noteq> EWOULDBLOCK \<and> e \<noteq> EAGAIN then Some (Inl (SystemCallError e), w1)
             else
               (case libev_wait_fd_with_watcher fd watcher EV_READ w1 of
                  None \<Rightarrow> None
                | Some ((switchpoint_result, watcher1), w2) \<Rightarrow>
                    if TEST_EXCEPTION switchpoint_result
                    then Some (Inl (RAISE_EXCEPTION switchpoint_result), w2)
                    else read_loop fd dynamic_len read_to_eof buf_pos mem buf len total_c watcher1 w2))
          else if 0 < n \<and> buf < 0 then Some (Inl UndefinedBehaviour, w1)
          else
            (case backend_snooze w1 of
               None \<Rightarrow> None
             | Some (switchpoint_result, w2) \<Rightarrow>
                 if TEST_EXCEPTION switchpoint_result
                 then Some (Inl (RAISE_EXCEPTION switchpoint_result), w2)
                 else if n = 0 then Some (Inr (mem, total_c), w2)
                 else if \<not> read_to_eof then Some (Inr (store mem (nat buf) bytes, total_c + n), w2)
                 else if total_c + n = len then
                   (if \<not> dynamic_len then Some (Inr (store mem (nat buf) bytes, total_c + n), w2)
                    else read_loop fd dynamic_len read_to_eof buf_pos
                           (take (nat (buf_pos + (total_c + n))) (store mem (nat buf) bytes)
                              @ replicate (nat len) (CHR 0x00))
                           (buf_pos + (total_c + n)) (len + len) (total_c + n) watcher w2)
                 else read_loop fd dynamic_len read_to_eof buf_pos (store mem (nat buf) bytes)
                        (buf + n) len (total_c + n) watcher w2))"
  by pat_completeness auto

lemma sys_read_shorter:
  "sys_read fd count w = Some (r, w1) \<Longrightarrow> length (sys_results w1) < length (sys_results w)"
  by (auto simp: sys_read_def Let_def split: list.splits sysres.splits)

lemma backend_snooze_sys_results:
  "backend_snooze w = Some (r, w1) \<Longrightarrow> sys_results w1 = sys_results w"
  by (auto simp: backend_snooze_def split: list.splits)

termination read_loop
proof (relation "measure (\<lambda>(fd, dynamic_len, read_to_eof, buf_pos, mem, buf, len, total_c, watcher, w).
    length (sys_results w))", goal_cases)
  case 1
  show ?case by simp
next
  case 2
  then show ?case
    using sys_read_shorter libev_wait_fd_sys_results by fastforce
next
  case 3
  then show ?case
    using sys_read_shorter backend_snooze_sys_results by fastforce
next
  case 4
  then show ?case
    using sys_read_shorter backend_snooze_sys_results by fastforce
qed

declare read_loop.simps [simp del]

text \<open>
  \<^verbatim>\<open>Backend_read\<close>, lines 264 to 335. The arguments: the I/O object, the buffer (\<open>None\<close>
  for \<^verbatim>\<open>nil\<close>), the length (\<open>None\<close> for \<^verbatim>\<open>nil\<close>), the flag \<open>to_eof\<close> and the position.
  A normal return gives the returned value and the buffer's final contents. The flag
  \<open>shrinkable\<close> only releases unused capacity and is left out, as are the checks that the
  I/O object is open and readable. A negative length handed to \<^verbatim>\<open>io_set_read_length\<close> is
  outside what the host's set-length accepts.
\<close>

definition Backend_read ::
  "io \<Rightarrow> string option \<Rightarrow> nat option \<Rightarrow> val \<Rightarrow> int \<Rightarrow> world \<Rightarrow>
   ((exn + (val \<times> string)) \<times> world) option" where
  "Backend_read io_arg str length_arg to_eof pos w =
     (let dynamic_len = (length_arg = None);
          len = (case length_arg of None \<Rightarrow> 4096 | Some l \<Rightarrow> int l);
          buf_pos = read_buf_pos str pos;
          mem = io_setstrbuf str (nat (buf_pos + len));
          buf = buf_pos;
          total_c = 0;
          read_to_eof = RTEST to_eof;
          io1 = (case ivar_io io_arg of None \<Rightarrow> io_arg | Some underlying_io \<Rightarrow> underlying_io);
          watcher = \<lparr>io_fiber = None, io_watch = None\<rparr>
      in case read_loop (io_fd io1) dynamic_len read_to_eof buf_pos mem buf len total_c watcher w of
           None \<Rightarrow> None
         | Some (Inl e, w1) \<Rightarrow> Some (Inl e, w1)
         | Some (Inr (mem1, total1), w1) \<Rightarrow>
             if buf_pos + total1 < 0 then Some (Inl UndefinedBehaviour, w1)
             else
               (let str1 = io_set_read_length mem1 (nat (buf_pos + total1))
                in if total1 = 0 then Some (Inr (Qnil, str1), w1)
                   else Some (Inr (VStr str1, str1), w1)))"

text \<open>\<^verbatim>\<open>Backend_recv\<close>, lines 337 to 339.\<close>

definition Backend_recv ::
  "io \<Rightarrow> string option \<Rightarrow> nat option \<Rightarrow> int \<Rightarrow> world \<Rightarrow>
   ((exn + (val \<times> string)) \<times> world) option" where
  "Backend_recv io_arg str length_arg pos w = Backend_read io_arg str length_arg Qnil pos w"

text \<open>The descriptor \<^verbatim>\<open>Backend_read\<close> reads from: one level of unwrapping.\<close>

definition read_fd :: "io \<Rightarrow> int" where
  "read_fd x = io_fd (case ivar_io x of None \<Rightarrow> x | Some u \<Rightarrow> u)"


definition read_len :: "nat option \<Rightarrow> nat" where
  "read_len length_arg = (case length_arg of None \<Rightarrow> 4096 | Some l \<Rightarrow> l)"

subsection \<open>A single-shot read, as the specification words it\<close>

text \<open>
  The reference the refinement claim compares \<^verbatim>\<open>recv\<close> with: one read into the buffer.
  Would-block suspends the fiber and the read is tried again; any other failure is raised;
  the first read that succeeds ends the operation, after one snooze, whatever it delivered.
  The buffer and the position in it are those of \<^verbatim>\<open>read\<close>, and so is what is undefined: a
  position before the buffer, once bytes are stored there or the length is set from it.
\<close>

function single_shot_loop ::
  "int \<Rightarrow> string \<Rightarrow> int \<Rightarrow> int \<Rightarrow> libev_io \<Rightarrow> world \<Rightarrow> ((exn + (string \<times> int)) \<times> world) option" where
  "single_shot_loop fd mem buf len watcher w =
     (case sys_read fd (nat len) (w\<lparr>op_count := op_count w + 1\<rparr>) of
        None \<Rightarrow> None
      | Some ((n, bytes), w1) \<Rightarrow>
          if n < 0 then
            (if errno w1 = EWOULDBLOCK \<or> errno w1 = EAGAIN then
               (case libev_wait_fd_with_watcher fd watcher EV_READ w1 of
                  None \<Rightarrow> None
                | Some ((resumed, watcher1), w2) \<Rightarrow>
                    if TEST_EXCEPTION resumed then Some (Inl (RAISE_EXCEPTION resumed), w2)
                    else single_shot_loop fd mem buf len watcher1 w2)
             else Some (Inl (SystemCallError (errno w1)), w1))
          else if 0 < n \<and> buf < 0 then Some (Inl UndefinedBehaviour, w1)
          else
            (case backend_snooze w1 of
               None \<Rightarrow> None
             | Some (resumed, w2) \<Rightarrow>
                 if TEST_EXCEPTION resumed then Some (Inl (RAISE_EXCEPTION resumed), w2)
                 else Some (Inr (store mem (nat buf) bytes, n), w2)))"
  by pat_completeness auto

termination single_shot_loop
proof (relation "measure (\<lambda>(fd, mem, buf, len, watcher, w). length (sys_results w))", goal_cases)
  case 1
  show ?case by simp
next
  case 2
  then show ?case
    using sys_read_shorter libev_wait_fd_sys_results by fastforce
qed

declare single_shot_loop.simps [simp del]

definition single_shot_read ::
  "io \<Rightarrow> string option \<Rightarrow> nat option \<Rightarrow> int \<Rightarrow> world \<Rightarrow>
   ((exn + (val \<times> string)) \<times> world) option" where
  "single_shot_read io_arg str length_arg pos w =
     (let buf_pos = read_buf_pos str pos;
          mem = io_setstrbuf str (nat (buf_pos + int (read_len length_arg)))
      in case single_shot_loop (read_fd io_arg) mem buf_pos (int (read_len length_arg))
                \<lparr>io_fiber = None, io_watch = None\<rparr> w of
           None \<Rightarrow> None
         | Some (Inl e, w1) \<Rightarrow> Some (Inl e, w1)
         | Some (Inr (mem1, n), w1) \<Rightarrow>
             if buf_pos + n < 0 then Some (Inl UndefinedBehaviour, w1)
             else if n = 0 then Some (Inr (Qnil, take (nat buf_pos) mem1), w1)
             else Some (Inr (VStr (take (nat (buf_pos + n)) mem1), take (nat (buf_pos + n)) mem1), w1))"

section \<open>connect\<close>

text \<open>
  \<^verbatim>\<open>connect(fd, addr, len)\<close>: the environment decides whether the connection is made at
  once. The host and the port only select the address.
\<close>

definition sys_connect :: "int \<Rightarrow> string \<Rightarrow> int \<Rightarrow> world \<Rightarrow> (int \<times> world) option" where
  "sys_connect fd host port w =
     (case sys_results w of
        [] \<Rightarrow> None
      | Err e # rs \<Rightarrow> Some (- 1, w\<lparr>sys_results := rs, errno := e\<rparr>)
      | Ok k # rs \<Rightarrow> Some (0, w\<lparr>sys_results := rs\<rparr>))"

text \<open>\<^verbatim>\<open>Backend_connect\<close>, lines 697 to 735.\<close>

definition Backend_connect ::
  "io \<Rightarrow> string \<Rightarrow> int \<Rightarrow> world \<Rightarrow> ((exn + val) \<times> world) option" where
  "Backend_connect sock host port w =
     (let sock1 = (case ivar_io sock of None \<Rightarrow> sock | Some underlying_sock \<Rightarrow> underlying_sock);
          watcher = \<lparr>io_fiber = None, io_watch = None\<rparr>
      in case sys_connect (io_fd sock1) host port (w\<lparr>op_count := op_count w + 1\<rparr>) of
           None \<Rightarrow> None
         | Some (result, w1) \<Rightarrow>
             if result < 0 then
               (let e = errno w1 in
                if e \<noteq> EINPROGRESS then Some (Inl (SystemCallError e), w1)
                else
                  (case libev_wait_fd_with_watcher (io_fd sock1) watcher EV_WRITE w1 of
                     None \<Rightarrow> None
                   | Some ((switchpoint_result, watcher1), w2) \<Rightarrow>
                       if TEST_EXCEPTION switchpoint_result
                       then Some (Inl (RAISE_EXCEPTION switchpoint_result), w2)
                       else Some (Inr (VIO sock1), w2)))
             else
               (case backend_snooze w1 of
                  None \<Rightarrow> None
                | Some (switchpoint_result, w2) \<Rightarrow>
                    if TEST_EXCEPTION switchpoint_result
                    then Some (Inl (RAISE_EXCEPTION switchpoint_result), w2)
                    else Some (Inr (VIO sock1), w2)))"

section \<open>send\<close>

text \<open>\<^verbatim>\<open>send(fd, buf, count, flags)\<close> transfers bytes as \<^verbatim>\<open>write\<close> does.\<close>

definition sys_send :: "int \<Rightarrow> string \<Rightarrow> int \<Rightarrow> world \<Rightarrow> (int \<times> world) option" where
  "sys_send fd bytes flags_int w = sys_write fd bytes w"

text \<open>\<^verbatim>\<open>Backend_send\<close>, lines 737 to 785.\<close>

function send_loop ::
  "int \<Rightarrow> string \<Rightarrow> nat \<Rightarrow> int \<Rightarrow> int \<Rightarrow> libev_io \<Rightarrow> world \<Rightarrow> ((exn + libev_io) \<times> world) option" where
  "send_loop fd str buf left flags_int watcher w =
     (if left > 0 then
        (case sys_send fd (take (nat left) (drop buf str)) flags_int
                (w\<lparr>op_count := op_count w + 1\<rparr>) of
           None \<Rightarrow> None
         | Some (n, w1) \<Rightarrow>
             if n < 0 then
               (let e = errno w1 in
                if e \<noteq> EWOULDBLOCK \<and> e \<noteq> EAGAIN then Some (Inl (SystemCallError e), w1)
                else
                  (case libev_wait_fd_with_watcher fd watcher EV_WRITE w1 of
                     None \<Rightarrow> None
                   | Some ((switchpoint_result, watcher1), w2) \<Rightarrow>
                       if TEST_EXCEPTION switchpoint_result
                       then Some (Inl (RAISE_EXCEPTION switchpoint_result), w2)
                       else send_loop fd str buf left flags_int watcher1 w2))
             else send_loop fd str (buf + nat n) (left - n) flags_int watcher w1)
      else Some (Inr watcher, w))"
  by pat_completeness auto

termination send_loop
proof (relation "measure (\<lambda>(fd, str, buf, left, flags_int, watcher, w). length (sys_results w))",
    goal_cases)
  case 1
  show ?case by simp
next
  case 2
  then show ?case
    using sys_write_shorter libev_wait_fd_sys_results by (fastforce simp: sys_send_def)
next
  case 3
  then show ?case
    using sys_write_shorter by (fastforce simp: sys_send_def)
qed

declare send_loop.simps [simp del]

definition Backend_send :: "io \<Rightarrow> string \<Rightarrow> int \<Rightarrow> world \<Rightarrow> ((exn + val) \<times> world) option" where
  "Backend_send io_arg str flags_int w =
     (let len = int (length str);
          left = len;
          io1 = (case ivar_io io_arg of None \<Rightarrow> io_arg | Some underlying_io \<Rightarrow> underlying_io);
          io2 = rb_io_get_write_io io1;
          watcher = \<lparr>io_fiber = None, io_watch = None\<rparr>
      in case send_loop (io_fd io2) str 0 left flags_int watcher w of
           None \<Rightarrow> None
         | Some (Inl e, w1) \<Rightarrow> Some (Inl e, w1)
         | Some (Inr watcher1, w1) \<Rightarrow>
             if io_fiber watcher1 = None then
               (case backend_snooze w1 of
                  None \<Rightarrow> None
                | Some (switchpoint_result, w2) \<Rightarrow>
                    if TEST_EXCEPTION switchpoint_result
                    then Some (Inl (RAISE_EXCEPTION switchpoint_result), w2)
                    else Some (Inr (INT2NUM len), w2))
             else Some (Inr (INT2NUM len), w1))"

section \<open>The read-write watcher\<close>

text \<open>
  Modelled from the spec: \<^verbatim>\<open>Fiber_make_runnable\<close>, which is not among the sources. The
  spec: scheduling is idempotent; if the fiber is already queued its resume value is
  updated in place, otherwise the fiber is inserted at the back of the run queue.
\<close>

definition Fiber_make_runnable :: "nat \<Rightarrow> val \<Rightarrow> world \<Rightarrow> world" where
  "Fiber_make_runnable f v w =
     (if f \<in> fst ` set (runqueue w)
      then w\<lparr>runqueue := map (\<lambda>(g, u). if g = f then (g, v) else (g, u)) (runqueue w)\<rparr>
      else w\<lparr>runqueue := runqueue w @ [(f, v)]\<rparr>)"

text \<open>
  The structures of lines 787 to 801. Both I/O watchers point to the one context of the
  \<^verbatim>\<open>libev_rw_io\<close> they belong to, so the context is kept once.
\<close>

record libev_rw_ctx =
  ref_count :: int
  ctx_fiber :: "nat option"

record libev_rw_io =
  r_io :: "(int \<times> ev) option"
  w_io :: "(int \<times> ev) option"
  ctx :: libev_rw_ctx

text \<open>
  \<^verbatim>\<open>Backend_rw_io_callback\<close>, lines 803 to 809. The event loop calls it for the watcher
  of one side (\<open>side\<close>) when that descriptor is ready. The local \<open>ref_count\<close> is the
  count before the decrement.
\<close>

definition Backend_rw_io_callback :: "ev \<Rightarrow> libev_rw_io \<Rightarrow> world \<Rightarrow> libev_rw_io \<times> world" where
  "Backend_rw_io_callback side watcher w =
     (let ref_count0 = ref_count (ctx watcher);
          watcher1 = watcher\<lparr>ctx := (ctx watcher)\<lparr>ref_count := ref_count0 - 1\<rparr>\<rparr>
      in if ref_count0 = 0
         then (watcher1,
               case ctx_fiber (ctx watcher) of
                 None \<Rightarrow> w
               | Some f \<Rightarrow> Fiber_make_runnable f Qnil w)
         else (watcher1, w))"

text \<open>
  \<^verbatim>\<open>libev_wait_rw_fd_with_watcher\<close>, lines 811 to 835, in its three parts: the
  registration (lines 814 to 827), the await, and the unregistration (lines 831 and 832).
\<close>

definition libev_wait_rw_register :: "int \<Rightarrow> int \<Rightarrow> libev_rw_io \<Rightarrow> world \<Rightarrow> libev_rw_io \<times> world" where
  "libev_wait_rw_register r_fd w_fd watcher w =
     (let watcher1 =
            (if ctx_fiber (ctx watcher) = None
             then watcher\<lparr>ctx := (ctx watcher)\<lparr>ctx_fiber := Some (current_fiber w)\<rparr>\<rparr>
             else watcher);
          watcher2 = watcher1\<lparr>ctx := (ctx watcher1)\<lparr>ref_count := 0\<rparr>\<rparr>;
          (watcher3, w3) =
            (if r_fd \<noteq> - 1
             then (watcher2\<lparr>r_io := Some (r_fd, EV_READ),
                     ctx := (ctx watcher2)\<lparr>ref_count := ref_count (ctx watcher2) + 1\<rparr>\<rparr>,
                   w\<lparr>io_watchers := (r_fd, EV_READ) # io_watchers w\<rparr>)
             else (watcher2, w))
      in if w_fd \<noteq> - 1
         then (watcher3\<lparr>w_io := Some (w_fd, EV_WRITE),
                 ctx := (ctx watcher3)\<lparr>ref_count := ref_count (ctx watcher3) + 1\<rparr>\<rparr>,
               w3\<lparr>io_watchers := (w_fd, EV_WRITE) # io_watchers w3\<rparr>)
         else (watcher3, w3))"

definition libev_wait_rw_unregister :: "int \<Rightarrow> int \<Rightarrow> libev_rw_io \<Rightarrow> world \<Rightarrow> world" where
  "libev_wait_rw_unregister r_fd w_fd watcher w =
     (let w1 = (if r_fd \<noteq> - 1
                then w\<lparr>io_watchers := remove1 (r_fd, EV_READ) (io_watchers w)\<rparr> else w)
      in if w_fd \<noteq> - 1
         then w1\<lparr>io_watchers := remove1 (w_fd, EV_WRITE) (io_watchers w1)\<rparr> else w1)"

definition libev_wait_rw_fd_with_watcher ::
  "int \<Rightarrow> int \<Rightarrow> libev_rw_io \<Rightarrow> world \<Rightarrow> ((val \<times> libev_rw_io) \<times> world) option" where
  "libev_wait_rw_fd_with_watcher r_fd w_fd watcher w =
     (case libev_wait_rw_register r_fd w_fd watcher w of
        (watcher1, w1) \<Rightarrow>
          (case backend_await w1 of
             None \<Rightarrow> None
           | Some (switchpoint_result, w2) \<Rightarrow>
               Some ((switchpoint_result, watcher1),
                     libev_wait_rw_unregister r_fd w_fd watcher1 w2)))"

section \<open>splice\<close>

text \<open>
  \<^verbatim>\<open>splice(src, 0, dest, 0, maxlen, 0)\<close>: the kernel moves a prefix of the bytes still to
  be read from \<open>src\<close> to \<open>dest\<close>; zero bytes is end of file. The length is a \<^verbatim>\<open>size_t\<close>:
  a negative \<open>maxlen\<close> is a huge one and limits nothing.
\<close>

definition sys_splice :: "int \<Rightarrow> int \<Rightarrow> int \<Rightarrow> world \<Rightarrow> (int \<times> world) option" where
  "sys_splice src dest maxlen w =
     (case sys_results w of
        [] \<Rightarrow> None
      | Err e # rs \<Rightarrow> Some (- 1, w\<lparr>sys_results := rs, errno := e\<rparr>)
      | Ok k # rs \<Rightarrow>
          (let avail = min k (length (readable w src));
               n = (if maxlen < 0 then avail else min (nat maxlen) avail);
               bytes = take n (readable w src)
           in Some (int n,
                transmit dest bytes
                  (w\<lparr>sys_results := rs,
                     readable := (readable w)(src := drop n (readable w src))\<rparr>))))"

text \<open>
  \<^verbatim>\<open>Backend_splice\<close> as built on Linux, lines 841 to 890. What \<^verbatim>\<open>splice\<close> returns is
  stored in the \<^verbatim>\<open>int\<close> \<open>len\<close>.
\<close>

function splice_loop ::
  "int \<Rightarrow> int \<Rightarrow> int \<Rightarrow> libev_rw_io \<Rightarrow> world \<Rightarrow> ((exn + (int \<times> libev_rw_io)) \<times> world) option" where
  "splice_loop src_fd dest_fd maxlen watcher w =
     (case sys_splice src_fd dest_fd maxlen (w\<lparr>op_count := op_count w + 1\<rparr>) of
        None \<Rightarrow> None
      | Some (n, w1) \<Rightarrow>
          (let len = c_int n in
           if len < 0 then
             (let e = errno w1 in
              if e \<noteq> EWOULDBLOCK \<and> e \<noteq> EAGAIN then Some (Inl (SystemCallError e), w1)
              else
                (case libev_wait_rw_fd_with_watcher src_fd dest_fd watcher w1 of
                   None \<Rightarrow> None
                 | Some ((switchpoint_result, watcher1), w2) \<Rightarrow>
                     if TEST_EXCEPTION switchpoint_result
                     then Some (Inl (RAISE_EXCEPTION switchpoint_result), w2)
                     else splice_loop src_fd dest_fd maxlen watcher1 w2))
           else Some (Inr (len, watcher), w1)))"
  by pat_completeness auto

lemma sys_splice_shorter:
  "sys_splice src dest maxlen w = Some (n, w1) \<Longrightarrow>
   length (sys_results w1) < length (sys_results w)"
  by (auto simp: sys_splice_def transmit_def Let_def split: list.splits sysres.splits)

lemma libev_wait_rw_fd_sys_results:
  "libev_wait_rw_fd_with_watcher r_fd w_fd watcher w = Some (r, w1) \<Longrightarrow>
   sys_results w1 = sys_results w"
  by (auto simp: libev_wait_rw_fd_with_watcher_def libev_wait_rw_register_def
      libev_wait_rw_unregister_def backend_await_def Let_def
      split: list.splits option.splits if_splits prod.splits)

termination splice_loop
proof (relation "measure (\<lambda>(src_fd, dest_fd, maxlen, watcher, w). length (sys_results w))",
    goal_cases)
  case 1
  show ?case by simp
next
  case 2
  then show ?case
    using sys_splice_shorter libev_wait_rw_fd_sys_results by fastforce
qed

declare splice_loop.simps [simp del]

definition Backend_splice :: "io \<Rightarrow> io \<Rightarrow> int \<Rightarrow> world \<Rightarrow> ((exn + val) \<times> world) option" where
  "Backend_splice src dest maxlen w =
     (let src1 = (case ivar_io src of None \<Rightarrow> src | Some underlying_io \<Rightarrow> underlying_io);
          dest1 = (case ivar_io dest of None \<Rightarrow> dest | Some underlying_io \<Rightarrow> underlying_io);
          dest2 = rb_io_get_write_io dest1;
          watcher = \<lparr>r_io = None, w_io = None, ctx = \<lparr>ref_count = 0, ctx_fiber = None\<rparr>\<rparr>
      in case splice_loop (io_fd src1) (io_fd dest2) maxlen watcher w of
           None \<Rightarrow> None
         | Some (Inl e, w1) \<Rightarrow> Some (Inl e, w1)
         | Some (Inr (len, watcher1), w1) \<Rightarrow>
             if ctx_fiber (ctx watcher1) = None then
               (case backend_snooze w1 of
                  None \<Rightarrow> None
                | Some (switchpoint_result, w2) \<Rightarrow>
                    if TEST_EXCEPTION switchpoint_result
                    then Some (Inl (RAISE_EXCEPTION switchpoint_result), w2)
                    else Some (Inr (INT2NUM len), w2))
             else Some (Inr (INT2NUM len), w1))"

section \<open>chain\<close>

text \<open>
  The symbols of lines 1618 to 1620, and the exception of line 1338, which is the
  specification's InvalidArgument.
\<close>

definition SYM_send :: val where "SYM_send = VSym ''send''"
definition SYM_splice :: val where "SYM_splice = VSym ''splice''"
definition SYM_write :: val where "SYM_write = VSym ''write''"

definition InvalidArgument :: exn where
  "InvalidArgument = RuntimeError ''Invalid op specified or bad op arity''"

text \<open>
  \<^verbatim>\<open>RARRAY_AREF\<close> does not check the index. The only read that can be out of range is that
  of element 0 of an empty array, and then the test on the length fails whatever was read.
\<close>

definition RARRAY_AREF :: "val list \<Rightarrow> nat \<Rightarrow> val" where
  "RARRAY_AREF a i = (if i < length a then a ! i else Qnil)"

text \<open>
  The operations as \<^verbatim>\<open>Backend_chain\<close> calls them, on values: the host's conversions
  (\<^verbatim>\<open>StringValuePtr\<close>, \<^verbatim>\<open>GetOpenFile\<close>, \<^verbatim>\<open>NUM2INT\<close>) raise a type error on a value of another
  shape.
\<close>

definition Backend_write_val :: "val \<Rightarrow> val \<Rightarrow> world \<Rightarrow> ((exn + val) \<times> world) option" where
  "Backend_write_val io_val str_val w =
     (case (io_val, str_val) of
        (VIO x, VStr s) \<Rightarrow> Backend_write x s w
      | _ \<Rightarrow> Some (Inl TypeError, w))"

definition Backend_send_val :: "val \<Rightarrow> val \<Rightarrow> val \<Rightarrow> world \<Rightarrow> ((exn + val) \<times> world) option" where
  "Backend_send_val io_val str_val flags_val w =
     (case (io_val, str_val, flags_val) of
        (VIO x, VStr s, VInt flags_int) \<Rightarrow> Backend_send x s flags_int w
      | _ \<Rightarrow> Some (Inl TypeError, w))"

definition Backend_splice_val :: "val \<Rightarrow> val \<Rightarrow> val \<Rightarrow> world \<Rightarrow> ((exn + val) \<times> world) option" where
  "Backend_splice_val src_val dest_val maxlen_val w =
     (case (src_val, dest_val, maxlen_val) of
        (VIO src, VIO dest, VInt maxlen) \<Rightarrow> Backend_splice src dest maxlen w
      | _ \<Rightarrow> Some (Inl TypeError, w))"

text \<open>
  \<^verbatim>\<open>Backend_chain\<close>, lines 1322 to 1343. \<open>chain_op\<close> is the body of the loop for one
  operation (an array of values), \<open>chain_loop\<close> the loop with its variable \<open>result\<close>.
\<close>

definition chain_op :: "val list \<Rightarrow> world \<Rightarrow> ((exn + val) \<times> world) option" where
  "chain_op op w =
     (let op_type = RARRAY_AREF op 0;
          op_len = length op
      in if op_type = SYM_write \<and> op_len = 3
         then Backend_write_val (RARRAY_AREF op 1) (RARRAY_AREF op 2) w
         else if op_type = SYM_send \<and> op_len = 4
         then Backend_send_val (RARRAY_AREF op 1) (RARRAY_AREF op 2) (RARRAY_AREF op 3) w
         else if op_type = SYM_splice \<and> op_len = 4
         then Backend_splice_val (RARRAY_AREF op 1) (RARRAY_AREF op 2) (RARRAY_AREF op 3) w
         else Some (Inl InvalidArgument, w))"

fun chain_loop :: "val list list \<Rightarrow> val \<Rightarrow> world \<Rightarrow> ((exn + val) \<times> world) option" where
  "chain_loop [] result w = Some (Inr result, w)"
| "chain_loop (op # argv) result w =
     (case chain_op op w of
        None \<Rightarrow> None
      | Some (Inl e, w1) \<Rightarrow> Some (Inl e, w1)
      | Some (Inr result1, w1) \<Rightarrow> chain_loop argv result1 w1)"

definition Backend_chain :: "val list list \<Rightarrow> world \<Rightarrow> ((exn + val) \<times> world) option" where
  "Backend_chain argv w =
     (let result = Qnil
      in if length argv = 0 then Some (Inr result, w)
         else chain_loop argv result w)"

text \<open>
  What the specification asks of an operation of a chain: a known kind, with the arity of
  that kind.
\<close>

definition known_op :: "val list \<Rightarrow> bool" where
  "known_op op =
     (case op of
        [] \<Rightarrow> False
      | kind # args \<Rightarrow>
          (kind = VSym ''write'' \<and> length args = 2) \<or>
          (kind = VSym ''send'' \<and> length args = 3) \<or>
          (kind = VSym ''splice'' \<and> length args = 3))"

section \<open>timeout\<close>

text \<open>
  How the protected block of a timeout ends: it returns a value, raises an exception, or
  leaves by a non-local exit (\<^verbatim>\<open>throw\<close>, \<^verbatim>\<open>break\<close>) that no \<^verbatim>\<open>rescue\<close> catches. A block
  is a function of the environment; \<open>None\<close> is a block that never ends.
\<close>

datatype block_exit = Returns val | Raises exn | Jumps string

type_synonym block = "world \<Rightarrow> (block_exit \<times> world) option"

definition ev_timer_start :: "timer_watcher \<Rightarrow> world \<Rightarrow> world" where
  "ev_timer_start watcher w = w\<lparr>timers := insert watcher (timers w)\<rparr>"

definition ev_timer_stop :: "timer_watcher \<Rightarrow> world \<Rightarrow> world" where
  "ev_timer_stop watcher w = w\<lparr>timers := timers w - {watcher}\<rparr>"

text \<open>\<^verbatim>\<open>Backend_timeout_ensure\<close>, lines 1190 to 1194.\<close>

definition Backend_timeout_ensure :: "timer_watcher \<Rightarrow> world \<Rightarrow> world" where
  "Backend_timeout_ensure watcher w = ev_timer_stop watcher w"

text \<open>
  Modelled from the spec: \<^verbatim>\<open>Backend_timeout_ensure_safe\<close> of \<^verbatim>\<open>backend_common.c\<close>, which is
  not among the sources. The spec: the timeout runs the protected block and looks at the
  block's result, which is the sentinel when the timer fired; an exception is a resume
  value like any other. So the block's result is handed back as a value, a raised
  exception as the exception object. A non-local exit passes through.
\<close>

definition Backend_timeout_ensure_safe :: "block \<Rightarrow> world \<Rightarrow> ((string + val) \<times> world) option" where
  "Backend_timeout_ensure_safe blk w =
     (case blk w of
        None \<Rightarrow> None
      | Some (Returns v, w1) \<Rightarrow> Some (Inr v, w1)
      | Some (Raises e, w1) \<Rightarrow> Some (Inr (VExc e), w1)
      | Some (Jumps tag, w1) \<Rightarrow> Some (Inl tag, w1))"

text \<open>
  \<^verbatim>\<open>rb_ensure(b_proc, data1, e_proc, data2)\<close> of the host: run \<open>b_proc\<close>, then \<open>e_proc\<close>
  whichever way \<open>b_proc\<close> ended, and end as \<open>b_proc\<close> did.
\<close>

definition rb_ensure ::
  "(world \<Rightarrow> ('a \<times> world) option) \<Rightarrow> (world \<Rightarrow> world) \<Rightarrow> world \<Rightarrow> ('a \<times> world) option" where
  "rb_ensure b_proc e_proc w =
     (case b_proc w of
        None \<Rightarrow> None
      | Some (r, w1) \<Rightarrow> Some (r, e_proc w1))"

text \<open>
  \<^verbatim>\<open>Backend_timeout\<close>, lines 1202 to 1232. The arguments after \<^verbatim>\<open>rb_scan_args\<close>: the
  duration, the exception constructor (\<^verbatim>\<open>nil\<close> for none) and the value to move on with.
  \<open>backend_timeout_exception\<close>, of \<^verbatim>\<open>backend_common.c\<close>, builds the exception to raise from
  the constructor; it is a parameter here. The sentinel is a new object of the timeout
  exception class. \<^verbatim>\<open>RAISE_IF_EXCEPTION\<close> raises its argument when that is an exception
  object.
\<close>

definition Backend_timeout ::
  "(val \<Rightarrow> exn) \<Rightarrow> real \<Rightarrow> val \<Rightarrow> val \<Rightarrow> block \<Rightarrow> world \<Rightarrow> (block_exit \<times> world) option" where
  "Backend_timeout backend_timeout_exception duration exception move_on_value blk w =
     (let timeout = VExc (TimeoutException (next_object w));
          w1 = w\<lparr>next_object := next_object w + 1\<rparr>;
          watcher = \<lparr>timer_after = duration, timer_fiber = current_fiber w1,
                     timer_resume_value = timeout\<rparr>;
          w2 = ev_timer_start watcher w1;
          w3 = w2\<lparr>op_count := op_count w2 + 1\<rparr>
      in case rb_ensure (Backend_timeout_ensure_safe blk) (Backend_timeout_ensure watcher) w3 of
           None \<Rightarrow> None
         | Some (Inl tag, w4) \<Rightarrow> Some (Jumps tag, w4)
         | Some (Inr result, w4) \<Rightarrow>
             if result = timeout then
               (if exception = Qnil then Some (Returns move_on_value, w4)
                else Some (Raises (backend_timeout_exception exception), w4))
             else if TEST_EXCEPTION result then Some (Raises (RAISE_EXCEPTION result), w4)
             else Some (Returns result, w4))"

text \<open>The sentinel and the timer a call of \<^verbatim>\<open>Backend_timeout\<close> installs in \<open>w\<close>.\<close>

definition timeout_sentinel_exn :: "world \<Rightarrow> exn" where
  "timeout_sentinel_exn w = TimeoutException (next_object w)"

definition timeout_sentinel :: "world \<Rightarrow> val" where
  "timeout_sentinel w = VExc (TimeoutException (next_object w))"

definition timeout_watcher :: "real \<Rightarrow> world \<Rightarrow> timer_watcher" where
  "timeout_watcher duration w =
     \<lparr>timer_after = duration, timer_fiber = current_fiber w,
      timer_resume_value = timeout_sentinel w\<rparr>"

text \<open>The environment the protected block starts in: the timer is armed.\<close>

definition timeout_armed :: "real \<Rightarrow> world \<Rightarrow> world" where
  "timeout_armed duration w =
     w\<lparr>next_object := next_object w + 1,
       timers := insert (timeout_watcher duration w) (timers w),
       op_count := op_count w + 1\<rparr>"

section \<open>The timer loop\<close>

text \<open>
  Modelled from the spec: \<^verbatim>\<open>current_time\<close> of \<^verbatim>\<open>backend_common.c\<close>, which is not among the
  sources. The spec calls what it returns \<open>now\<close>: the reading of the clock, a double.
\<close>

definition current_time :: "world \<Rightarrow> double" where
  "current_time w = clock w"

text \<open>\<^verbatim>\<open>ev_timer_start\<close> and \<^verbatim>\<open>ev_timer_stop\<close> on the watcher of the timer loop.\<close>

definition libev_timer_start :: "libev_timer \<Rightarrow> world \<Rightarrow> world" where
  "libev_timer_start watcher w = w\<lparr>sleep_timers := insert watcher (sleep_timers w)\<rparr>"

definition libev_timer_stop :: "libev_timer \<Rightarrow> world \<Rightarrow> world" where
  "libev_timer_stop watcher w = w\<lparr>sleep_timers := sleep_timers w - {watcher}\<rparr>"

text \<open>
  The \<^verbatim>\<open>do ... while\<close> of lines 1173 to 1175. It may run for ever: an interval that is not
  positive, or one so small that adding it leaves \<open>next_time\<close> as it is. Not returning is
  \<open>None\<close>.
\<close>

partial_function (option) advance_next_time :: "double \<Rightarrow> double \<Rightarrow> double \<Rightarrow> double option" where
  "advance_next_time next_time interval_d now =
     (let next_time1 = double_add next_time interval_d
      in if double_le next_time1 now then advance_next_time next_time1 interval_d now
         else Some next_time1)"

text \<open>
  What the environment does during one pass of the loop: the reading of the clock at the
  second call of \<^verbatim>\<open>current_time\<close> (line 1159, made while \<open>next_time\<close> is zero), the
  reading once the fiber is resumed from the await, the reading once the caller's block
  has run, and the exception the block raised, if any.
\<close>

record tick =
  second_reading :: double
  after_sleep :: double
  after_block :: double
  block_raised :: "exn option"

text \<open>
  One pass of the loop of \<^verbatim>\<open>Backend_timer_loop\<close>, lines 1158 to 1175: from \<open>next_time\<close> to
  the exception that ends the loop or to the next \<open>next_time\<close>.
\<close>

definition timer_loop_body ::
  "double \<Rightarrow> double \<Rightarrow> tick \<Rightarrow> world \<Rightarrow> ((exn + double) \<times> world) option" where
  "timer_loop_body interval_d next_time t w =
     (let now = current_time w;
          w0 = (if double_eq next_time (Finite 0 0) then w\<lparr>clock := second_reading t\<rparr> else w);
          next_time1 = (if double_eq next_time (Finite 0 0)
                        then double_add (current_time w0) interval_d else next_time);
          sleep_duration0 = double_sub next_time1 now;
          sleep_duration = (if double_lt sleep_duration0 (Finite 0 0) then Finite 0 0
                            else sleep_duration0);
          watcher = \<lparr>sleep_after = sleep_duration, sleep_fiber = current_fiber w0\<rparr>;
          w1 = libev_timer_start watcher w0;
          w2 = w1\<lparr>op_count := op_count w1 + 1\<rparr>
      in case backend_await w2 of
           None \<Rightarrow> None
         | Some (switchpoint_result, w3) \<Rightarrow>
             (let w4 = libev_timer_stop watcher (w3\<lparr>clock := after_sleep t\<rparr>)
              in if TEST_EXCEPTION switchpoint_result
                 then Some (Inl (RAISE_EXCEPTION switchpoint_result), w4)
                 else
                   (let w5 = w4\<lparr>clock := after_block t\<rparr>
                    in case block_raised t of
                         Some e \<Rightarrow> Some (Inl e, w5)
                       | None \<Rightarrow>
                           (case advance_next_time next_time1 interval_d now of
                              None \<Rightarrow> None
                            | Some next_time2 \<Rightarrow> Some (Inr next_time2, w5)))))"

text \<open>
  \<^verbatim>\<open>Backend_timer_loop\<close>, lines 1147 to 1177. The loop has no exit of its own: it ends with
  an exception, or it is still running when the environment's ticks are used up.
\<close>

fun timer_loop :: "double \<Rightarrow> double \<Rightarrow> tick list \<Rightarrow> world \<Rightarrow> (exn \<times> world) option" where
  "timer_loop interval_d next_time [] w = None"
| "timer_loop interval_d next_time (t # ts) w =
     (case timer_loop_body interval_d next_time t w of
        None \<Rightarrow> None
      | Some (Inl e, w1) \<Rightarrow> Some (e, w1)
      | Some (Inr next_time1, w1) \<Rightarrow> timer_loop interval_d next_time1 ts w1)"

definition Backend_timer_loop :: "double \<Rightarrow> tick list \<Rightarrow> world \<Rightarrow> (exn \<times> world) option" where
  "Backend_timer_loop interval_d ts w = timer_loop interval_d (Finite 0 0) ts w"

text \<open>The deadline the pass sleeps until: \<open>next_time\<close>, set on the first pass.\<close>

definition deadline :: "double \<Rightarrow> double \<Rightarrow> tick \<Rightarrow> double" where
  "deadline interval_d next_time t =
     (if double_eq next_time (Finite 0 0) then double_add (second_reading t) interval_d
      else next_time)"

text \<open>\<open>next_time\<close> after the interval was added \<open>k\<close> times.\<close>

definition advanced :: "double \<Rightarrow> nat \<Rightarrow> double \<Rightarrow> double" where
  "advanced interval_d k next_time = ((\<lambda>x. double_add x interval_d) ^^ k) next_time"

section \<open>The chunked splice\<close>

text \<open>
  \<^verbatim>\<open>pipe(pipefd)\<close> makes a new pipe: two descriptors not in use, the read end empty, and
  what is written to the write end becomes readable at the read end. \<^verbatim>\<open>close\<close> of the
  read end drops what is unread, \<^verbatim>\<open>close\<close> of the write end cuts the connection. On
  failure \<open>pipefd\<close> stays as it was, \<open>- 1\<close> twice.
\<close>

definition sys_pipe :: "world \<Rightarrow> ((int \<times> int \<times> int) \<times> world) option" where
  "sys_pipe w =
     (case sys_results w of
        [] \<Rightarrow> None
      | Err e # rs \<Rightarrow> Some ((- 1, - 1, - 1), w\<lparr>sys_results := rs, errno := e\<rparr>)
      | Ok k # rs \<Rightarrow>
          Some ((0, next_fd w, next_fd w + 1),
                w\<lparr>sys_results := rs, next_fd := next_fd w + 2,
                  pipe_peer := (pipe_peer w)(next_fd w + 1 := Some (next_fd w)),
                  readable := (readable w)(next_fd w := [])\<rparr>))"

definition sys_close :: "int \<Rightarrow> world \<Rightarrow> world" where
  "sys_close fd w =
     w\<lparr>pipe_peer := (pipe_peer w)(fd := None), readable := (readable w)(fd := [])\<rparr>"

text \<open>
  The ways out of a step of \<^verbatim>\<open>Backend_splice_chunks\<close>: the two labels, \<^verbatim>\<open>error\<close> with the
  value of \<open>result\<close> and \<^verbatim>\<open>syscallerror\<close> with the value of the function's \<open>err\<close>, and
  going on to the next statement. \<open>step_bind\<close> runs the next statement unless a label was
  taken. \<open>Overflow\<close> is no label: it ends a run in which a sum of \<^verbatim>\<open>int\<close>s left the range
  of \<^verbatim>\<open>int\<close>, which C leaves undefined.
\<close>

datatype 'a step = Goto_error val | Goto_syscallerror int | Overflow | Continue 'a

definition step_bind ::
  "('a step \<times> world) option \<Rightarrow> ('a \<Rightarrow> world \<Rightarrow> ('b step \<times> world) option) \<Rightarrow>
   ('b step \<times> world) option" where
  "step_bind m f =
     (case m of
        None \<Rightarrow> None
      | Some (Goto_error r, w) \<Rightarrow> Some (Goto_error r, w)
      | Some (Goto_syscallerror e, w) \<Rightarrow> Some (Goto_syscallerror e, w)
      | Some (Overflow, w) \<Rightarrow> Some (Overflow, w)
      | Some (Continue x, w) \<Rightarrow> f x w)"

text \<open>
  \<^verbatim>\<open>splice_chunks_write\<close>, lines 1367 to 1387. It returns 0, an error number, or \<open>- 1\<close>
  with the exception in \<open>result\<close>. The length of the string is stored in the \<^verbatim>\<open>int\<close>
  \<open>len\<close> (line 1369): of a string of \<open>2 ^ 31\<close> bytes or more, the bytes written are as many
  as that \<^verbatim>\<open>int\<close> says, none when it is negative.
\<close>

function splice_chunks_write_loop ::
  "int \<Rightarrow> string \<Rightarrow> nat \<Rightarrow> int \<Rightarrow> libev_rw_io \<Rightarrow> val \<Rightarrow> world \<Rightarrow>
   ((int \<times> libev_rw_io \<times> val) \<times> world) option" where
  "splice_chunks_write_loop fd str buf left watcher result w =
     (if left > 0 then
        (case sys_write fd (take (nat left) (drop buf str)) (w\<lparr>op_count := op_count w + 1\<rparr>) of
           None \<Rightarrow> None
         | Some (n, w1) \<Rightarrow>
             if n < 0 then
               (let err = errno w1 in
                if err \<noteq> EWOULDBLOCK \<and> err \<noteq> EAGAIN then Some ((err, watcher, result), w1)
                else
                  (case libev_wait_rw_fd_with_watcher (- 1) fd watcher w1 of
                     None \<Rightarrow> None
                   | Some ((result1, watcher1), w2) \<Rightarrow>
                       if TEST_EXCEPTION result1 then Some ((- 1, watcher1, result1), w2)
                       else splice_chunks_write_loop fd str buf left watcher1 result1 w2))
             else splice_chunks_write_loop fd str (buf + nat n) (left - n) watcher result w1)
      else Some ((0, watcher, result), w))"
  by pat_completeness auto

termination splice_chunks_write_loop
proof (relation "measure (\<lambda>(fd, str, buf, left, watcher, result, w). length (sys_results w))",
    goal_cases)
  case 1
  show ?case by simp
next
  case 2
  then show ?case
    using sys_write_shorter libev_wait_rw_fd_sys_results by fastforce
next
  case 3
  then show ?case
    using sys_write_shorter by fastforce
qed

declare splice_chunks_write_loop.simps [simp del]

definition splice_chunks_write ::
  "int \<Rightarrow> string \<Rightarrow> libev_rw_io \<Rightarrow> val \<Rightarrow> world \<Rightarrow>
   ((int \<times> libev_rw_io \<times> val) \<times> world) option" where
  "splice_chunks_write fd str watcher result w =
     (let len = c_int (int (length str));
          left = len
      in splice_chunks_write_loop fd str 0 left watcher result w)"

text \<open>
  \<^verbatim>\<open>splice_chunks_splice\<close> as built on Linux, lines 1389 to 1402. It returns 0 with the
  number of bytes moved in \<open>chunk_len\<close>, an error number, or \<open>- 1\<close> with the exception in
  \<open>result\<close>. What \<^verbatim>\<open>splice\<close> returns is stored in an \<^verbatim>\<open>int\<close>.
\<close>

function splice_chunks_splice_loop ::
  "int \<Rightarrow> int \<Rightarrow> int \<Rightarrow> libev_rw_io \<Rightarrow> val \<Rightarrow> world \<Rightarrow>
   ((int \<times> libev_rw_io \<times> val \<times> int) \<times> world) option" where
  "splice_chunks_splice_loop src_fd dest_fd maxlen watcher result w =
     (case sys_splice src_fd dest_fd maxlen w of
        None \<Rightarrow> None
      | Some (n, w1) \<Rightarrow>
          (let chunk_len = c_int n in
           if chunk_len \<ge> 0 then Some ((0, watcher, result, chunk_len), w1)
           else
             (let err = errno w1 in
              if err \<noteq> EWOULDBLOCK \<and> err \<noteq> EAGAIN
              then Some ((err, watcher, result, chunk_len), w1)
              else
                (case libev_wait_rw_fd_with_watcher src_fd dest_fd watcher w1 of
                   None \<Rightarrow> None
                 | Some ((result1, watcher1), w2) \<Rightarrow>
                     if TEST_EXCEPTION result1 then Some ((- 1, watcher1, result1, chunk_len), w2)
                     else splice_chunks_splice_loop src_fd dest_fd maxlen watcher1 result1 w2))))"
  by pat_completeness auto

termination splice_chunks_splice_loop
proof (relation "measure (\<lambda>(src_fd, dest_fd, maxlen, watcher, result, w). length (sys_results w))",
    goal_cases)
  case 1
  show ?case by simp
next
  case 2
  then show ?case
    using sys_splice_shorter libev_wait_rw_fd_sys_results by fastforce
qed

declare splice_chunks_splice_loop.simps [simp del]

definition splice_chunks_splice ::
  "int \<Rightarrow> int \<Rightarrow> int \<Rightarrow> libev_rw_io \<Rightarrow> val \<Rightarrow> world \<Rightarrow>
   ((int \<times> libev_rw_io \<times> val \<times> int) \<times> world) option" where
  "splice_chunks_splice src_fd dest_fd maxlen watcher result w =
     splice_chunks_splice_loop src_fd dest_fd maxlen watcher result
       (w\<lparr>op_count := op_count w + 1\<rparr>)"

text \<open>
  A framing argument of \<^verbatim>\<open>splice_chunks\<close>: \<^verbatim>\<open>nil\<close>, a string, or an object that is called
  with the chunk's length and gives a string.
\<close>

datatype framing = F_nil | F_str string | F_call "int \<Rightarrow> string"

definition framing_str :: "framing \<Rightarrow> int \<Rightarrow> string" where
  "framing_str f chunk_len =
     (case f of F_nil \<Rightarrow> [] | F_str s \<Rightarrow> s | F_call g \<Rightarrow> g chunk_len)"

text \<open>
  The block that writes a framing string inside and after the loop, lines 1496 to 1500,
  1511 to 1515 and 1518 to 1521. Its \<^verbatim>\<open>int err\<close> is a variable of the block: the label
  \<^verbatim>\<open>syscallerror\<close> reads the function's \<open>err\<close>, which the block leaves as it was.
\<close>

definition splice_chunks_write_framing ::
  "int \<Rightarrow> framing \<Rightarrow> int \<Rightarrow> int \<Rightarrow> libev_rw_io \<Rightarrow> val \<Rightarrow> world \<Rightarrow>
   ((libev_rw_io \<times> val) step \<times> world) option" where
  "splice_chunks_write_framing dest_fd f chunk_len err watcher result w =
     (case f of
        F_nil \<Rightarrow> Some (Continue (watcher, result), w)
      | _ \<Rightarrow>
          (let str = framing_str f chunk_len
           in case splice_chunks_write dest_fd str watcher result w of
                None \<Rightarrow> None
              | Some ((err_inner, watcher1, result1), w1) \<Rightarrow>
                  if err_inner = - 1 then Some (Goto_error result1, w1)
                  else if err_inner \<noteq> 0 then Some (Goto_syscallerror err, w1)
                  else Some (Continue (watcher1, result1), w1)))"

text \<open>The loop of lines 1503 to 1509, which empties the pipe into the destination.\<close>

function splice_chunks_drain ::
  "int \<Rightarrow> int \<Rightarrow> int \<Rightarrow> int \<Rightarrow> libev_rw_io \<Rightarrow> val \<Rightarrow> world \<Rightarrow>
   ((int \<times> libev_rw_io \<times> val) step \<times> world) option" where
  "splice_chunks_drain pipe_r dest_fd left err watcher result w =
     (if left > 0 then
        (case splice_chunks_splice pipe_r dest_fd left watcher result w of
           None \<Rightarrow> None
         | Some ((err1, watcher1, result1, len), w1) \<Rightarrow>
             if err1 = - 1 then Some (Goto_error result1, w1)
             else if err1 \<noteq> 0 then Some (Goto_syscallerror err1, w1)
             else splice_chunks_drain pipe_r dest_fd (left - len) err1 watcher1 result1 w1)
      else Some (Continue (err, watcher, result), w))"
  by pat_completeness auto

lemma splice_chunks_splice_loop_shorter:
  "splice_chunks_splice_loop src_fd dest_fd maxlen watcher result w = Some (r, w1) \<Longrightarrow>
   length (sys_results w1) < length (sys_results w)"
proof (induction src_fd dest_fd maxlen watcher result w rule: splice_chunks_splice_loop.induct)
  case (1 src_fd dest_fd maxlen watcher result w)
  from "1.prems" obtain n w0 where
    s: "sys_splice src_fd dest_fd maxlen w = Some (n, w0)"
    by (subst (asm) splice_chunks_splice_loop.simps) (auto split: option.splits)
  note lt = sys_splice_shorter [OF s]
  show ?case
  proof (cases "c_int n \<ge> 0 \<or> (errno w0 \<noteq> EWOULDBLOCK \<and> errno w0 \<noteq> EAGAIN)")
    case True
    with "1.prems" s lt show ?thesis
      by (subst (asm) splice_chunks_splice_loop.simps) (auto simp: Let_def split: if_splits)
  next
    case False
    with "1.prems" s obtain result1 watcher1 w2 where
      wt: "libev_wait_rw_fd_with_watcher src_fd dest_fd watcher w0 = Some ((result1, watcher1), w2)"
      by (subst (asm) splice_chunks_splice_loop.simps) (auto simp: Let_def split: option.splits)
    note eq = libev_wait_rw_fd_sys_results [OF wt]
    show ?thesis
    proof (cases "TEST_EXCEPTION result1")
      case True
      with "1.prems" s False wt lt eq show ?thesis
        by (subst (asm) splice_chunks_splice_loop.simps) (auto simp: Let_def)
    next
      case nex: False
      with "1.prems" s False wt have
        rec: "splice_chunks_splice_loop src_fd dest_fd maxlen watcher1 result1 w2 = Some (r, w1)"
        by (subst (asm) splice_chunks_splice_loop.simps) (auto simp: Let_def)
      from False have c: "\<not> 0 \<le> c_int n" "\<not> (errno w0 \<noteq> EWOULDBLOCK \<and> errno w0 \<noteq> EAGAIN)"
        by auto
      from "1.IH" [OF s refl refl c(1) refl c(2) wt refl refl nex rec] lt eq
      show ?thesis by simp
    qed
  qed
qed

lemma splice_chunks_splice_shorter:
  "splice_chunks_splice src_fd dest_fd maxlen watcher result w = Some (r, w1) \<Longrightarrow>
   length (sys_results w1) < length (sys_results w)"
  using splice_chunks_splice_loop_shorter by (fastforce simp: splice_chunks_splice_def)

termination splice_chunks_drain
proof (relation "measure (\<lambda>(pipe_r, dest_fd, left, err, watcher, result, w). length (sys_results w))",
    goal_cases)
  case 1
  show ?case by simp
next
  case 2
  then show ?case
    using splice_chunks_splice_shorter by fastforce
qed

declare splice_chunks_drain.simps [simp del]

text \<open>
  One pass of the loop of lines 1487 to 1516. It goes on with a flag that says whether the
  loop was left by \<^verbatim>\<open>break\<close>, and with \<open>total\<close>, \<open>err\<close>, the watcher and \<open>result\<close>.
  \<open>total\<close> is an \<^verbatim>\<open>int\<close> (line 1450): when the sum of line 1493 is outside the range of
  \<^verbatim>\<open>int\<close> the run ends there with \<open>Overflow\<close>.
\<close>

definition splice_chunks_iteration ::
  "int \<Rightarrow> int \<Rightarrow> int \<Rightarrow> int \<Rightarrow> int \<Rightarrow> framing \<Rightarrow> framing \<Rightarrow> int \<Rightarrow> libev_rw_io \<Rightarrow> val \<Rightarrow> world \<Rightarrow>
   ((bool \<times> int \<times> int \<times> libev_rw_io \<times> val) step \<times> world) option" where
  "splice_chunks_iteration src_fd dest_fd pipefd0 pipefd1 maxlen chunk_prefix chunk_postfix
     total_c watcher result w =
     (case splice_chunks_splice src_fd pipefd1 maxlen watcher result w of
        None \<Rightarrow> None
      | Some ((err, watcher1, result1, chunk_len), w1) \<Rightarrow>
          if err = - 1 then Some (Goto_error result1, w1)
          else if err \<noteq> 0 then Some (Goto_syscallerror err, w1)
          else if chunk_len = 0 then Some (Continue (True, total_c, err, watcher1, result1), w1)
          else if total_c + chunk_len < - 2147483648 \<or> 2147483647 < total_c + chunk_len
          then Some (Overflow, w1)
          else
            step_bind
              (splice_chunks_write_framing dest_fd chunk_prefix chunk_len err watcher1 result1 w1)
              (\<lambda>(watcher2, result2) w2.
                 step_bind (splice_chunks_drain pipefd0 dest_fd chunk_len err watcher2 result2 w2)
                   (\<lambda>(err3, watcher3, result3) w3.
                      step_bind
                        (splice_chunks_write_framing dest_fd chunk_postfix chunk_len err3
                           watcher3 result3 w3)
                        (\<lambda>(watcher4, result4) w4.
                           Some (Continue (False, total_c + chunk_len, err3, watcher4, result4),
                                 w4)))))"

lemma splice_chunks_write_loop_not_longer:
  "splice_chunks_write_loop fd str buf left watcher result w = Some (r, w1) \<Longrightarrow>
   length (sys_results w1) \<le> length (sys_results w)"
proof (induction fd str buf left watcher result w rule: splice_chunks_write_loop.induct)
  case (1 fd str buf left watcher result w)
  show ?case
  proof (cases "left > 0")
    case False
    with "1.prems" show ?thesis
      by (subst (asm) splice_chunks_write_loop.simps) simp
  next
    case True
    with "1.prems" obtain n w0 where
      s: "sys_write fd (take (nat left) (drop buf str)) (w\<lparr>op_count := op_count w + 1\<rparr>) = Some (n, w0)"
      by (subst (asm) splice_chunks_write_loop.simps) (auto split: option.splits)
    from sys_write_shorter [OF s] have lt: "length (sys_results w0) < length (sys_results w)"
      by simp
    show ?thesis
    proof (cases "n < 0")
      case pos: False
      with "1.prems" True s have
        "splice_chunks_write_loop fd str (buf + nat n) (left - n) watcher result w0 = Some (r, w1)"
        by (subst (asm) splice_chunks_write_loop.simps) simp
      from "1.IH"(2) [OF True s refl pos this] lt show ?thesis by simp
    next
      case neg: True
      show ?thesis
      proof (cases "errno w0 \<noteq> EWOULDBLOCK \<and> errno w0 \<noteq> EAGAIN")
        case True
        with "1.prems" \<open>left > 0\<close> s neg lt show ?thesis
          by (subst (asm) splice_chunks_write_loop.simps) (auto simp: Let_def)
      next
        case wb: False
        with "1.prems" \<open>left > 0\<close> s neg obtain result1 watcher1 w2 where
          wt: "libev_wait_rw_fd_with_watcher (- 1) fd watcher w0 = Some ((result1, watcher1), w2)"
          by (subst (asm) splice_chunks_write_loop.simps) (auto simp: Let_def split: option.splits)
        note eq = libev_wait_rw_fd_sys_results [OF wt]
        show ?thesis
        proof (cases "TEST_EXCEPTION result1")
          case True
          with "1.prems" \<open>left > 0\<close> s neg wb wt lt eq show ?thesis
            by (subst (asm) splice_chunks_write_loop.simps) (auto simp: Let_def)
        next
          case nex: False
          with "1.prems" \<open>left > 0\<close> s neg wb wt have
            "splice_chunks_write_loop fd str buf left watcher1 result1 w2 = Some (r, w1)"
            by (subst (asm) splice_chunks_write_loop.simps) (auto simp: Let_def)
          from "1.IH"(1) [OF \<open>left > 0\<close> s refl neg refl wb wt refl refl nex this] lt eq
          show ?thesis by simp
        qed
      qed
    qed
  qed
qed

lemma splice_chunks_write_framing_not_longer:
  "splice_chunks_write_framing dest_fd f chunk_len err watcher result w = Some (r, w1) \<Longrightarrow>
   length (sys_results w1) \<le> length (sys_results w)"
  using splice_chunks_write_loop_not_longer
  by (fastforce simp: splice_chunks_write_framing_def splice_chunks_write_def Let_def
      split: if_splits option.splits framing.splits)

lemma splice_chunks_drain_not_longer:
  "splice_chunks_drain pipe_r dest_fd left err watcher result w = Some (r, w1) \<Longrightarrow>
   length (sys_results w1) \<le> length (sys_results w)"
proof (induction pipe_r dest_fd left err watcher result w rule: splice_chunks_drain.induct)
  case (1 pipe_r dest_fd left err watcher result w)
  show ?case
  proof (cases "left > 0")
    case False
    with "1.prems" show ?thesis
      by (subst (asm) splice_chunks_drain.simps) simp
  next
    case True
    with "1.prems" obtain err1 watcher1 result1 len w0 where
      s: "splice_chunks_splice pipe_r dest_fd left watcher result w
            = Some ((err1, watcher1, result1, len), w0)"
      by (subst (asm) splice_chunks_drain.simps) (auto split: option.splits)
    note lt = splice_chunks_splice_shorter [OF s]
    show ?thesis
    proof (cases "err1 = - 1 \<or> err1 \<noteq> 0")
      case True
      with "1.prems" \<open>left > 0\<close> s lt show ?thesis
        by (subst (asm) splice_chunks_drain.simps) (auto split: if_splits)
    next
      case False
      with "1.prems" \<open>left > 0\<close> s have
        rec: "splice_chunks_drain pipe_r dest_fd (left - len) err1 watcher1 result1 w0 = Some (r, w1)"
        by (subst (asm) splice_chunks_drain.simps) auto
      from False have c: "err1 \<noteq> - 1" "\<not> err1 \<noteq> 0" by auto
      from "1.IH" [OF \<open>left > 0\<close> s refl refl refl refl c rec] lt show ?thesis by simp
    qed
  qed
qed

lemma splice_chunks_iteration_shorter:
  assumes "splice_chunks_iteration src_fd dest_fd pipefd0 pipefd1 maxlen chunk_prefix chunk_postfix
     total_c watcher result w = Some (r, w')"
  shows "length (sys_results w') < length (sys_results w)"
proof -
  from assms obtain err watcher1 result1 chunk_len w1 where
    s: "splice_chunks_splice src_fd pipefd1 maxlen watcher result w
          = Some ((err, watcher1, result1, chunk_len), w1)"
    by (auto simp: splice_chunks_iteration_def split: option.splits)
  note lt = splice_chunks_splice_shorter [OF s]
  show ?thesis
  proof (cases "err = - 1 \<or> err \<noteq> 0 \<or> chunk_len = 0 \<or>
      total_c + chunk_len < - 2147483648 \<or> 2147483647 < total_c + chunk_len")
    case True
    with assms s lt show ?thesis
      by (auto simp: splice_chunks_iteration_def split: if_splits)
  next
    case False
    with assms s have b: "step_bind
        (splice_chunks_write_framing dest_fd chunk_prefix chunk_len err watcher1 result1 w1)
        (\<lambda>(watcher2, result2) w2.
           step_bind (splice_chunks_drain pipefd0 dest_fd chunk_len err watcher2 result2 w2)
             (\<lambda>(err3, watcher3, result3) w3.
                step_bind
                  (splice_chunks_write_framing dest_fd chunk_postfix chunk_len err3
                     watcher3 result3 w3)
                  (\<lambda>(watcher4, result4) w4.
                     Some (Continue (False, total_c + chunk_len, err3, watcher4, result4), w4))))
        = Some (r, w')"
      by (auto simp: splice_chunks_iteration_def)
    have "length (sys_results w') \<le> length (sys_results w1)"
      using b
      by (auto simp: step_bind_def split: option.splits step.splits prod.splits
          dest!: splice_chunks_write_framing_not_longer splice_chunks_drain_not_longer)
    with lt show ?thesis by simp
  qed
qed

text \<open>The loop of lines 1487 to 1516.\<close>

function splice_chunks_loop ::
  "int \<Rightarrow> int \<Rightarrow> int \<Rightarrow> int \<Rightarrow> int \<Rightarrow> framing \<Rightarrow> framing \<Rightarrow> int \<Rightarrow> libev_rw_io \<Rightarrow> val \<Rightarrow> world \<Rightarrow>
   ((int \<times> int \<times> libev_rw_io \<times> val) step \<times> world) option" where
  "splice_chunks_loop src_fd dest_fd pipefd0 pipefd1 maxlen chunk_prefix chunk_postfix
     total_c watcher result w =
     (case splice_chunks_iteration src_fd dest_fd pipefd0 pipefd1 maxlen chunk_prefix chunk_postfix
             total_c watcher result w of
        None \<Rightarrow> None
      | Some (Goto_error r, w1) \<Rightarrow> Some (Goto_error r, w1)
      | Some (Goto_syscallerror e, w1) \<Rightarrow> Some (Goto_syscallerror e, w1)
      | Some (Overflow, w1) \<Rightarrow> Some (Overflow, w1)
      | Some (Continue (left_loop, total1, err1, watcher1, result1), w1) \<Rightarrow>
          if left_loop then Some (Continue (total1, err1, watcher1, result1), w1)
          else splice_chunks_loop src_fd dest_fd pipefd0 pipefd1 maxlen chunk_prefix chunk_postfix
                 total1 watcher1 result1 w1)"
  by pat_completeness auto

termination splice_chunks_loop
proof (relation "measure (\<lambda>(src_fd, dest_fd, pipefd0, pipefd1, maxlen, chunk_prefix, chunk_postfix,
    total_c, watcher, result, w). length (sys_results w))", goal_cases)
  case 1
  show ?case by simp
next
  case 2
  then show ?case
    using splice_chunks_iteration_shorter by fastforce
qed

declare splice_chunks_loop.simps [simp del]

text \<open>
  The end of \<^verbatim>\<open>Backend_splice_chunks\<close>, lines 1530 to 1540: whichever way the body ended,
  both ends of the pipe are closed (when the pipe was made); then the total is returned or
  the exception raised.
\<close>

definition splice_chunks_exit ::
  "int \<Rightarrow> int \<Rightarrow> (int step \<times> world) option \<Rightarrow> ((exn + val) \<times> world) option" where
  "splice_chunks_exit pipefd0 pipefd1 m =
     (case m of
        None \<Rightarrow> None
      | Some (st, w) \<Rightarrow>
          (let w1 = (if pipefd0 \<noteq> - 1 then sys_close pipefd0 w else w);
               w2 = (if pipefd1 \<noteq> - 1 then sys_close pipefd1 w1 else w1)
           in case st of
                Continue total_c \<Rightarrow> Some (Inr (INT2NUM total_c), w2)
              | Goto_syscallerror err \<Rightarrow> Some (Inl (SystemCallError err), w2)
              | Goto_error result \<Rightarrow> Some (Inl (RAISE_EXCEPTION result), w2)
              | Overflow \<Rightarrow> Some (Inl UndefinedBehaviour, w2)))"

text \<open>
  \<^verbatim>\<open>Backend_splice_chunks\<close>, lines 1447 to 1541. \<open>prefix\<close> and \<open>postfix\<close> are \<^verbatim>\<open>nil\<close>
  (\<open>None\<close>) or a string; \<open>chunk_size\<close> is the integer \<^verbatim>\<open>NUM2INT\<close> gives. The prefix is
  written with the function's own \<open>err\<close>.
\<close>

definition Backend_splice_chunks ::
  "io \<Rightarrow> io \<Rightarrow> string option \<Rightarrow> string option \<Rightarrow> framing \<Rightarrow> framing \<Rightarrow> int \<Rightarrow> world \<Rightarrow>
   ((exn + val) \<times> world) option" where
  "Backend_splice_chunks src dest prefix postfix chunk_prefix chunk_postfix chunk_size w =
     (let total_c = 0;
          result = Qnil;
          src1 = (case ivar_io src of None \<Rightarrow> src | Some underlying_io \<Rightarrow> underlying_io);
          dest1 = (case ivar_io dest of None \<Rightarrow> dest | Some underlying_io \<Rightarrow> underlying_io);
          dest2 = rb_io_get_write_io dest1;
          watcher = \<lparr>r_io = None, w_io = None, ctx = \<lparr>ref_count = 0, ctx_fiber = None\<rparr>\<rparr>;
          maxlen = chunk_size
      in case sys_pipe w of
           None \<Rightarrow> None
         | Some ((ret, pipefd0, pipefd1), w1) \<Rightarrow>
             splice_chunks_exit pipefd0 pipefd1
               (if ret = - 1 then Some (Goto_syscallerror (errno w1), w1)
                else
                  step_bind
                    (case prefix of
                       None \<Rightarrow> Some (Continue (watcher, result), w1)
                     | Some str \<Rightarrow>
                         (case splice_chunks_write (io_fd dest2) str watcher result w1 of
                            None \<Rightarrow> None
                          | Some ((err, watcher1, result1), w2) \<Rightarrow>
                              if err = - 1 then Some (Goto_error result1, w2)
                              else if err \<noteq> 0 then Some (Goto_syscallerror err, w2)
                              else Some (Continue (watcher1, result1), w2)))
                    (\<lambda>(watcher1, result1) w2.
                       step_bind
                         (splice_chunks_loop (io_fd src1) (io_fd dest2) pipefd0 pipefd1 maxlen
                            chunk_prefix chunk_postfix total_c watcher1 result1 w2)
                         (\<lambda>(total1, err1, watcher2, result2) w3.
                            step_bind
                              (splice_chunks_write_framing (io_fd dest2)
                                 (case postfix of None \<Rightarrow> F_nil | Some str \<Rightarrow> F_str str)
                                 0 err1 watcher2 result2 w3)
                              (\<lambda>(watcher3, result3) w4.
                                 if ctx_fiber (ctx watcher3) = None then
                                   (case backend_snooze w4 of
                                      None \<Rightarrow> None
                                    | Some (result4, w5) \<Rightarrow>
                                        if TEST_EXCEPTION result4
                                        then Some (Goto_error result4, w5)
                                        else Some (Continue total1, w5))
                                 else Some (Continue total1, w4))))))"

section \<open>The other I/O operations\<close>

subsection \<open>\<^verbatim>\<open>read_loop\<close> and \<^verbatim>\<open>feed_loop\<close>\<close>






subsection \<open>writev\<close>








subsection \<open>accept\<close>









subsection \<open>\<^verbatim>\<open>splice_to_eof\<close>\<close>





subsection \<open>\<^verbatim>\<open>wait_io\<close>\<close>

text \<open>\<^verbatim>\<open>libev_wait_fd\<close>, lines 251 to 262, which waits with a watcher of its own.\<close>

definition libev_wait_fd :: "int \<Rightarrow> ev \<Rightarrow> bool \<Rightarrow> world \<Rightarrow> ((exn + val) \<times> world) option" where
  "libev_wait_fd fd events raise_exception w =
     (let watcher = \<lparr>io_fiber = None, io_watch = None\<rparr>
      in case libev_wait_fd_with_watcher fd watcher events w of
           None \<Rightarrow> None
         | Some ((switchpoint_result, watcher1), w1) \<Rightarrow>
             if raise_exception \<and> TEST_EXCEPTION switchpoint_result
             then Some (Inl (RAISE_EXCEPTION switchpoint_result), w1)
             else Some (Inr switchpoint_result, w1))"

text \<open>\<^verbatim>\<open>Backend_wait_io\<close>, lines 1103 to 1114. It makes no system call.\<close>

definition Backend_wait_io :: "io \<Rightarrow> val \<Rightarrow> world \<Rightarrow> ((exn + val) \<times> world) option" where
  "Backend_wait_io io_arg write w =
     (let events = (if RTEST write then EV_WRITE else EV_READ);
          io1 = (case ivar_io io_arg of None \<Rightarrow> io_arg | Some underlying_io \<Rightarrow> underlying_io)
      in libev_wait_fd (io_fd io1) events True (w\<lparr>op_count := op_count w + 1\<rparr>))"

section \<open>A concrete environment\<close>

definition example_world :: world where
  "example_world =
     \<lparr>sys_results = [], resume_values = [], errno = 0, readable = (\<lambda>fd. []),
      written = (\<lambda>fd. []), pipe_peer = (\<lambda>fd. None), next_fd = 100, op_count = 0,
      io_watchers = [], timers = {}, sleep_timers = {}, clock = double_of_int 10,
      next_object = 0, current_fiber = 1, runqueue = []\<rparr>"

definition fresh_rw_io :: libev_rw_io where
  "fresh_rw_io = \<lparr>r_io = None, w_io = None, ctx = \<lparr>ref_count = 0, ctx_fiber = None\<rparr>\<rparr>"

text \<open>The environment right after a system call that failed with \<open>errno = e\<close>.\<close>

definition failed_call :: "int \<Rightarrow> sysres list \<Rightarrow> world \<Rightarrow> world" where
  "failed_call e rest w = w\<lparr>op_count := op_count w + 1, sys_results := rest, errno := e\<rparr>"

text \<open>
  What an operation does with the outcome of a wait: it does not return while the fiber is
  not resumed, raises the resume value when that is an exception, and otherwise tries the
  call again, with the watcher the wait left.
\<close>

definition resumed ::
  "((val \<times> 'w) \<times> world) option \<Rightarrow> ('w \<Rightarrow> world \<Rightarrow> ((exn + 'a) \<times> world) option) \<Rightarrow>
   ((exn + 'a) \<times> world) option" where
  "resumed waited retry =
     (case waited of
        None \<Rightarrow> None
      | Some ((switchpoint_result, watcher1), w2) \<Rightarrow>
          if TEST_EXCEPTION switchpoint_result
          then Some (Inl (RAISE_EXCEPTION switchpoint_result), w2)
          else retry watcher1 w2)"







section \<open>Properties of write\<close>

lemma sys_write_cases:
  "sys_write fd bytes w = Some (n, w1) \<Longrightarrow>
   (n < 0 \<and> written w1 = written w) \<or>
   (0 \<le> n \<and> nat n \<le> length bytes \<and>
    written w1 = (written w)(fd := written w fd @ take (nat n) bytes))"
  by (auto simp: sys_write_def transmit_def split: list.splits sysres.splits)

lemma libev_wait_fd_written:
  "libev_wait_fd_with_watcher fd watcher events w = Some (r, w1) \<Longrightarrow> written w1 = written w"
  by (auto simp: libev_wait_fd_with_watcher_def backend_await_def ev_io_start_def ev_io_stop_def
      Let_def split: list.splits option.splits if_splits)

lemma backend_snooze_written:
  "backend_snooze w = Some (r, w1) \<Longrightarrow> written w1 = written w"
  by (auto simp: backend_snooze_def split: list.splits)

lemma write_loop_written:
  "write_loop fd str buf left watcher w = Some (Inr watcher', w') \<Longrightarrow>
   0 \<le> left \<Longrightarrow> buf + nat left = length str \<Longrightarrow>
   written w' = (written w)(fd := written w fd @ drop buf str)"
proof (induction fd str buf left watcher w rule: write_loop.induct)
  case (1 fd str buf left watcher w)
  show ?case
  proof (cases "left > 0")
    case False
    with "1.prems" show ?thesis
      by (simp add: write_loop.simps)
  next
    case True
    let ?w0 = "w\<lparr>op_count := op_count w + 1\<rparr>"
    let ?bytes = "take (nat left) (drop buf str)"
    from True "1.prems"(1) obtain n w1 where sw: "sys_write fd ?bytes ?w0 = Some (n, w1)"
      by (subst (asm) write_loop.simps) (auto split: option.splits)
    show ?thesis
    proof (cases "n < 0")
      case neg: True
      with sw sys_write_cases [OF sw] have w1: "written w1 = written w" by auto
      from True neg sw "1.prems"(1) obtain sr watcher1 w2 where
        wait: "libev_wait_fd_with_watcher fd watcher EV_WRITE w1 = Some ((sr, watcher1), w2)"
        and nex: "\<not> TEST_EXCEPTION sr"
        and e: "\<not> (errno w1 \<noteq> EWOULDBLOCK \<and> errno w1 \<noteq> EAGAIN)"
        and rec: "write_loop fd str buf left watcher1 w2 = Some (Inr watcher', w')"
        by (subst (asm) write_loop.simps) (auto simp: Let_def split: option.splits if_splits)
      have "written w' = (written w2)(fd := written w2 fd @ drop buf str)"
        by (rule "1.IH"(1) [OF True sw refl neg refl e wait refl refl nex rec "1.prems"(2,3)])
      then show ?thesis
        using libev_wait_fd_written [OF wait] w1 by simp
    next
      case pos: False
      with sw sys_write_cases [OF sw] have n: "0 \<le> n" "nat n \<le> length ?bytes"
        and w1: "written w1 = (written w)(fd := written w fd @ take (nat n) ?bytes)" by auto
      from True pos sw "1.prems"(1) have
        rec: "write_loop fd str (buf + nat n) (left - n) watcher w1 = Some (Inr watcher', w')"
        by (subst (asm) write_loop.simps) (auto simp: Let_def split: option.splits if_splits)
      have le: "nat n \<le> nat left" using n(2) by simp
      have "0 \<le> left - n" "buf + nat n + nat (left - n) = length str"
        using "1.prems"(2,3) n(1) le by auto
      then have "written w' = (written w1)(fd := written w1 fd @ drop (buf + nat n) str)"
        by (rule "1.IH"(2) [OF True sw refl pos rec])
      moreover have "take (nat n) ?bytes @ drop (buf + nat n) str = drop buf str"
      proof -
        have "take (nat n) ?bytes = take (nat n) (drop buf str)" using le by (simp add: min_def)
        moreover have "drop (buf + nat n) str = drop (nat n) (drop buf str)"
          by (simp add: add.commute)
        ultimately show ?thesis by (simp only: append_take_drop_id)
      qed
      ultimately show ?thesis using w1 by simp
    qed
  qed
qed


lemma write_loop_returns:
  "sys_results w = map Ok ks @ rest \<Longrightarrow> \<forall>k\<in>set ks. 0 < k \<Longrightarrow> nat left \<le> sum_list ks \<Longrightarrow>
   buf + nat left = length str \<Longrightarrow>
   \<exists>w'. write_loop fd str buf left watcher w = Some (Inr watcher, w') \<and>
        resume_values w' = resume_values w"
proof (induction ks arbitrary: buf left w)
  case Nil
  then show ?case by (simp add: write_loop.simps)
next
  case (Cons k ks)
  show ?case
  proof (cases "left > 0")
    case False
    then show ?thesis by (simp add: write_loop.simps)
  next
    case True
    define bytes where "bytes = take (nat left) (drop buf str)"
    define n where "n = min k (length bytes)"
    define w1 where
      "w1 = transmit fd (take n bytes) (w\<lparr>op_count := op_count w + 1, sys_results := map Ok ks @ rest\<rparr>)"
    have len: "length bytes = nat left" using Cons.prems(4) by (simp add: bytes_def)
    have k: "0 < k" using Cons.prems(2) by simp
    have n: "0 < n" "n \<le> nat left" using k True len by (auto simp: n_def)
    have sw: "sys_write fd bytes (w\<lparr>op_count := op_count w + 1\<rparr>) = Some (int n, w1)"
      using Cons.prems(1) by (simp add: sys_write_def n_def w1_def)
    have s1: "sys_results w1 = map Ok ks @ rest" by (simp add: transmit_def w1_def)
    have r1: "resume_values w1 = resume_values w" by (simp add: transmit_def w1_def)
    have "nat (left - int n) \<le> sum_list ks"
      using Cons.prems(3) True len by (auto simp: n_def min_def)
    moreover have "buf + n + nat (left - int n) = length str"
      using Cons.prems(4) n by auto
    moreover have "\<forall>k\<in>set ks. 0 < k" using Cons.prems(2) by simp
    ultimately obtain w' where
      "write_loop fd str (buf + n) (left - int n) watcher w1 = Some (Inr watcher, w')"
      "resume_values w' = resume_values w1"
      using Cons.IH [OF s1, of "left - int n" "buf + n"] by blast
    then show ?thesis
      using True sw r1 by (subst write_loop.simps) (simp add: bytes_def)
  qed
qed

lemma Backend_write_returned:
  assumes a: "Backend_write io_arg str w = Some (Inr v, w')"
  shows "v = INT2NUM (int (length str))"
    and "written w' = (written w)(write_fd io_arg := written w (write_fd io_arg) @ str)"
proof -
  from a obtain watcher1 w1 where
    loop: "write_loop (write_fd io_arg) str 0 (int (length str)) \<lparr>io_fiber = None, io_watch = None\<rparr> w
           = Some (Inr watcher1, w1)"
    by (auto simp: Backend_write_def write_fd_def Let_def split: option.splits sum.splits)
  have w1: "written w1 = (written w)(write_fd io_arg := written w (write_fd io_arg) @ str)"
    using write_loop_written [OF loop] by simp
  from a loop have "v = INT2NUM (int (length str)) \<and> written w' = written w1"
    by (auto simp: Backend_write_def write_fd_def Let_def backend_snooze_written
        split: option.splits if_splits)
  with w1 show "v = INT2NUM (int (length str))"
    and "written w' = (written w)(write_fd io_arg := written w (write_fd io_arg) @ str)"
    by simp_all
qed

lemma Backend_write_returns:
  assumes "sys_results w = map Ok ks @ rest" and "\<forall>k\<in>set ks. 0 < k"
    and "length str \<le> sum_list ks" and "resume_values w = r # rs" and "\<not> TEST_EXCEPTION r"
  shows "\<exists>w1. Backend_write io_arg str w = Some (Inr (INT2NUM (int (length str))), w1)"
proof -
  obtain w1 where
    loop: "write_loop (write_fd io_arg) str 0 (int (length str)) \<lparr>io_fiber = None, io_watch = None\<rparr> w
           = Some (Inr \<lparr>io_fiber = None, io_watch = None\<rparr>, w1)"
    and r: "resume_values w1 = resume_values w"
    using write_loop_returns [of w ks rest "int (length str)" 0 str "write_fd io_arg"] assms(1-3)
    by auto
  with assms(4,5) show ?thesis
    by (simp add: Backend_write_def write_fd_def Let_def backend_snooze_def)
qed

lemma c_int_id: "- 2147483648 \<le> n \<Longrightarrow> n < 2147483648 \<Longrightarrow> c_int n = n"
  by (simp add: c_int_def)

text \<open>
  Claim C2, as the code has it. When \<^verbatim>\<open>write(io, s)\<close> returns normally, the bytes written
  to the descriptor are exactly those of \<open>s\<close>, in order, appended to what was there, and no
  other descriptor was written to; this holds whatever mix of short writes, would-block
  failures and resumptions the environment produced. The value returned is the length of
  \<open>s\<close> as \<^verbatim>\<open>INT2NUM\<close> boxes it, through a C \<^verbatim>\<open>int\<close>: the length itself when \<open>s\<close> has fewer
  than \<open>2 ^ 31\<close> bytes. The call does return when the writes together take all the bytes,
  each at least one, and the final snooze resumes normally.
\<close>

theorem Backend_write_all_bytes:
  "(Backend_write io_arg str w = Some (Inr v, w') \<longrightarrow>
      v = VInt (c_int (int (length str))) \<and>
      (length str < 2147483648 \<longrightarrow> v = VInt (int (length str))) \<and>
      written w' = (written w)(write_fd io_arg := written w (write_fd io_arg) @ str)) \<and>
   (sys_results w = map Ok ks @ rest \<and> (\<forall>k\<in>set ks. 0 < k) \<and> length str \<le> sum_list ks \<and>
    resume_values w = r # rs \<and> \<not> TEST_EXCEPTION r \<longrightarrow>
      (\<exists>w1. Backend_write io_arg str w = Some (Inr (VInt (c_int (int (length str)))), w1)))"
proof (intro conjI impI)
  assume a: "Backend_write io_arg str w = Some (Inr v, w')"
  from Backend_write_returned [OF a]
  show v: "v = VInt (c_int (int (length str)))"
    and "written w' = (written w)(write_fd io_arg := written w (write_fd io_arg) @ str)"
    by (simp_all add: INT2NUM_def)
  show "v = VInt (int (length str))" if "length str < 2147483648"
    using v that by (simp add: c_int_id)
next
  assume b: "sys_results w = map Ok ks @ rest \<and> (\<forall>k\<in>set ks. 0 < k) \<and> length str \<le> sum_list ks \<and>
    resume_values w = r # rs \<and> \<not> TEST_EXCEPTION r"
  then show "\<exists>w1. Backend_write io_arg str w = Some (Inr (VInt (c_int (int (length str)))), w1)"
    using Backend_write_returns [of w ks rest str r rs io_arg] by (simp add: INT2NUM_def)
qed

lemma Backend_write_example:
  "Backend_write (IO 5 None None) ''hello''
     (example_world\<lparr>sys_results := [Ok 2, Err 11, Ok 10], resume_values := [Qnil]\<rparr>) =
   Some (Inr (VInt 5),
     example_world\<lparr>sys_results := [], resume_values := [], errno := 11,
       written := (\<lambda>fd. [])(5 := ''hello''), op_count := 3\<rparr>)"
  by (simp add: Backend_write_def write_loop.simps sys_write_def transmit_def example_world_def
      rb_io_get_write_io_def libev_wait_fd_with_watcher_def backend_await_def backend_snooze_def
      ev_io_start_def ev_io_stop_def TEST_EXCEPTION_def INT2NUM_def c_int_def EAGAIN_def
      EWOULDBLOCK_def Let_def)

theorem Backend_write_all_bytes_witness:
  "\<exists>w'. Backend_write (IO 5 None None) ''hello''
          (example_world\<lparr>sys_results := [Ok 2, Err 11, Ok 10], resume_values := [Qnil]\<rparr>) =
        Some (Inr (VInt 5), w') \<and> written w' 5 = ''hello''"
  using Backend_write_all_bytes [of "IO 5 None None" "''hello''"
      "example_world\<lparr>sys_results := [Ok 2, Err 11, Ok 10], resume_values := [Qnil]\<rparr>"
      "VInt 5" _ "[]" "[]" Qnil "[]"]
    Backend_write_example
  by (simp add: write_fd_def rb_io_get_write_io_def example_world_def)

text \<open>
  The claim as stated fails for a string of \<open>2 ^ 31\<close> bytes: two writes take all of it, the
  second the last 4096 bytes, and the value returned is \<open>- 2 ^ 31\<close>.
\<close>

theorem Backend_write_counterexample:
  "length (replicate 2147483648 (CHR ''a'')) = 2147483648 \<and>
   map_option fst
     (Backend_write (IO 5 None None) (replicate 2147483648 (CHR ''a''))
        (example_world\<lparr>sys_results := [Ok 2147479552, Ok 4096], resume_values := [Qnil]\<rparr>)) =
   Some (Inr (VInt (- 2147483648))) \<and>
   map_option (\<lambda>r. written (snd r) 5)
     (Backend_write (IO 5 None None) (replicate 2147483648 (CHR ''a''))
        (example_world\<lparr>sys_results := [Ok 2147479552, Ok 4096], resume_values := [Qnil]\<rparr>)) =
   Some (replicate 2147483648 (CHR ''a''))"
proof -
  define big where "big = replicate 2147483648 (CHR ''a'')"
  define w where
    "w = example_world\<lparr>sys_results := [Ok 2147479552, Ok 4096], resume_values := [Qnil]\<rparr>"
  have len: "length big = 2147483648"
    unfolding big_def by (simp only: length_replicate)
  have s: "sys_results w = map Ok [2147479552, 4096] @ []"
    and r: "resume_values w = Qnil # []"
    by (simp_all add: w_def)
  have "\<exists>w1. Backend_write (IO 5 None None) big w = Some (Inr (INT2NUM (int (length big))), w1)"
    by (rule Backend_write_returns [OF s _ _ r]) (simp_all add: len TEST_EXCEPTION_def)
  then obtain w1 where
    run: "Backend_write (IO 5 None None) big w = Some (Inr (INT2NUM (int (length big))), w1)"
    by blast
  have v: "INT2NUM (int (length big)) = VInt (- 2147483648)"
    by (simp add: len INT2NUM_def c_int_def)
  have wr: "written w1 5 = big"
    using Backend_write_returned(2) [OF run]
    by (simp add: write_fd_def rb_io_get_write_io_def w_def example_world_def)
  have run1: "Backend_write (IO 5 None None) big w = Some (Inr (VInt (- 2147483648)), w1)"
    using run by (simp only: v)
  show ?thesis
    unfolding big_def [symmetric] w_def [symmetric]
    by (simp add: run1 wr len)
qed

section \<open>Properties of read and recv\<close>

lemma sys_read_cases:
  "sys_read fd count w = Some ((n, bytes), w1) \<Longrightarrow>
   (n < 0 \<and> readable w1 = readable w) \<or>
   (n = int (length bytes) \<and> length bytes \<le> count \<and> readable w fd = bytes @ readable w1 fd)"
  by (auto simp: sys_read_def Let_def split: list.splits sysres.splits)












lemma Backend_read_unfold:
  "Backend_read io_arg str length_arg to_eof pos w =
     (case read_loop (read_fd io_arg) (length_arg = None) (RTEST to_eof) (read_buf_pos str pos)
             (io_setstrbuf str (nat (read_buf_pos str pos + int (read_len length_arg))))
             (read_buf_pos str pos) (int (read_len length_arg)) 0
             \<lparr>io_fiber = None, io_watch = None\<rparr> w of
        None \<Rightarrow> None
      | Some (Inl e, w1) \<Rightarrow> Some (Inl e, w1)
      | Some (Inr (mem1, total1), w1) \<Rightarrow>
          if read_buf_pos str pos + total1 < 0 then Some (Inl UndefinedBehaviour, w1)
          else if total1 = 0
          then Some (Inr (Qnil, take (nat (read_buf_pos str pos + total1)) mem1), w1)
          else Some (Inr (VStr (take (nat (read_buf_pos str pos + total1)) mem1),
                          take (nat (read_buf_pos str pos + total1)) mem1), w1))"
proof -
  have len: "(case length_arg of None \<Rightarrow> 4096 | Some l \<Rightarrow> int l) = int (read_len length_arg)"
    by (simp add: read_len_def split: option.splits)
  show ?thesis
    unfolding Backend_read_def read_fd_def Let_def len io_set_read_length_def
    by (rule refl)
qed







lemma Backend_read_example:
  "Backend_read (IO 4 None None) None (Some 10) Qnil 0
     (example_world\<lparr>sys_results := [Err 11, Ok 3], resume_values := [Qnil, Qnil],
        readable := (\<lambda>fd. [])(4 := ''hello'')\<rparr>) =
   Some (Inr (VStr ''hel'', ''hel''),
     example_world\<lparr>sys_results := [], resume_values := [], errno := 11,
       readable := (\<lambda>fd. [])(4 := ''lo''), op_count := 2\<rparr>)"
  by (simp add: Backend_read_def read_loop.simps sys_read_def example_world_def
      libev_wait_fd_with_watcher_def backend_await_def backend_snooze_def
      ev_io_start_def ev_io_stop_def TEST_EXCEPTION_def EAGAIN_def EWOULDBLOCK_def
      read_buf_pos_def io_setstrbuf_def io_set_read_length_def store_def RTEST_def Let_def)


lemma store_empty: "store mem buf [] = mem"
  by (simp add: store_def)

lemma read_loop_single_shot:
  "read_loop fd dynamic_len False buf_pos mem buf len 0 watcher w =
   single_shot_loop fd mem buf len watcher w"
proof (induction fd mem buf len watcher w rule: single_shot_loop.induct)
  case (1 fd mem buf len watcher w)
  show ?case
  proof (cases "sys_read fd (nat len) (w\<lparr>op_count := op_count w + 1\<rparr>)")
    case None
    then show ?thesis
      by (subst read_loop.simps, subst single_shot_loop.simps) simp
  next
    case (Some a)
    then obtain n bytes w1 where
      sr: "sys_read fd (nat len) (w\<lparr>op_count := op_count w + 1\<rparr>) = Some ((n, bytes), w1)"
      by (cases a) auto
    show ?thesis
    proof (cases "n < 0")
      case neg: True
      show ?thesis
      proof (cases "errno w1 = EWOULDBLOCK \<or> errno w1 = EAGAIN")
        case False
        with sr neg show ?thesis
          by (subst read_loop.simps, subst single_shot_loop.simps) (simp add: Let_def)
      next
        case wb: True
        show ?thesis
        proof (cases "libev_wait_fd_with_watcher fd watcher EV_READ w1")
          case None
          with sr neg wb show ?thesis
            by (subst read_loop.simps, subst single_shot_loop.simps) (auto simp: Let_def)
        next
          case (Some b)
          then obtain resumed watcher1 w2 where
            wait: "libev_wait_fd_with_watcher fd watcher EV_READ w1 = Some ((resumed, watcher1), w2)"
            by (cases b) auto
          show ?thesis
          proof (cases "TEST_EXCEPTION resumed")
            case True
            with sr neg wb wait show ?thesis
              by (subst read_loop.simps, subst single_shot_loop.simps) (auto simp: Let_def)
          next
            case False
            from "1.IH" [OF sr refl refl neg wb wait refl refl False]
            have "read_loop fd dynamic_len False buf_pos mem buf len 0 watcher1 w2 =
                  single_shot_loop fd mem buf len watcher1 w2" .
            with sr neg wb wait False show ?thesis
              by (subst read_loop.simps, subst single_shot_loop.simps) (auto simp: Let_def)
          qed
        qed
      qed
    next
      case pos: False
      have "n = 0 \<Longrightarrow> bytes = []"
        using sys_read_cases [OF sr] pos by auto
      with sr pos show ?thesis
        by (subst read_loop.simps, subst single_shot_loop.simps)
          (auto simp: Let_def store_empty split: option.splits)
    qed
  qed
qed

text \<open>
  Claim C10. \<^verbatim>\<open>recv\<close> is \<^verbatim>\<open>read\<close> with a false \<open>to_eof\<close> (\<^verbatim>\<open>nil\<close> or \<^verbatim>\<open>false\<close>): the same
  result, the same buffer, the same exception and the same effect on the environment, for
  every environment. Both are the single-shot read.
\<close>

theorem Backend_recv_is_single_read:
  "Backend_recv io_arg str length_arg pos w = Backend_read io_arg str length_arg Qnil pos w \<and>
   Backend_recv io_arg str length_arg pos w = Backend_read io_arg str length_arg Qfalse pos w \<and>
   Backend_recv io_arg str length_arg pos w = single_shot_read io_arg str length_arg pos w"
proof (intro conjI)
  show "Backend_recv io_arg str length_arg pos w = Backend_read io_arg str length_arg Qnil pos w"
    by (simp add: Backend_recv_def)
  show "Backend_recv io_arg str length_arg pos w = Backend_read io_arg str length_arg Qfalse pos w"
    by (simp add: Backend_recv_def Backend_read_def RTEST_def)
  show "Backend_recv io_arg str length_arg pos w = single_shot_read io_arg str length_arg pos w"
    unfolding Backend_recv_def Backend_read_unfold single_shot_read_def Let_def
    by (auto simp: RTEST_def read_loop_single_shot split: option.splits sum.splits)
qed

theorem Backend_recv_is_single_read_witness:
  "Backend_recv (IO 4 None None) None (Some 10) 0
     (example_world\<lparr>sys_results := [Err 11, Ok 3, Ok 2], resume_values := [Qnil, Qnil, Qnil],
        readable := (\<lambda>fd. [])(4 := ''hello'')\<rparr>) =
   Backend_read (IO 4 None None) None (Some 10) Qnil 0
     (example_world\<lparr>sys_results := [Err 11, Ok 3, Ok 2], resume_values := [Qnil, Qnil, Qnil],
        readable := (\<lambda>fd. [])(4 := ''hello'')\<rparr>) \<and>
   Backend_recv (IO 4 None None) None (Some 10) 0
     (example_world\<lparr>sys_results := [Err 11, Ok 3, Ok 2], resume_values := [Qnil, Qnil, Qnil],
        readable := (\<lambda>fd. [])(4 := ''hello'')\<rparr>) =
   Some (Inr (VStr ''hel'', ''hel''),
     example_world\<lparr>sys_results := [Ok 2], resume_values := [Qnil], errno := 11,
       readable := (\<lambda>fd. [])(4 := ''lo''), op_count := 2\<rparr>)"
  using Backend_recv_is_single_read [of "IO 4 None None" None "Some 10" 0
      "example_world\<lparr>sys_results := [Err 11, Ok 3, Ok 2], resume_values := [Qnil, Qnil, Qnil],
        readable := (\<lambda>fd. [])(4 := ''hello'')\<rparr>"]
  by (simp add: Backend_read_def read_loop.simps sys_read_def example_world_def
      libev_wait_fd_with_watcher_def backend_await_def backend_snooze_def
      ev_io_start_def ev_io_stop_def TEST_EXCEPTION_def EAGAIN_def EWOULDBLOCK_def
      read_buf_pos_def io_setstrbuf_def io_set_read_length_def store_def RTEST_def Let_def)

section \<open>Properties of the read-write watcher\<close>

text \<open>
  Claim C1, as the code has it. With both watchers registered the count is 2, and the
  first callback that fires, on either side, only takes it to 1: the run queue and the rest
  of the environment are as they were, so the waiting fiber is not made runnable by it.
\<close>

theorem rw_first_callback_only_counts:
  assumes "r_fd \<noteq> - 1" and "w_fd \<noteq> - 1"
    and "libev_wait_rw_register r_fd w_fd watcher w = (watcher1, w1)"
    and "Backend_rw_io_callback side watcher1 w1 = (watcher2, w2)"
  shows "ref_count (ctx watcher1) = 2 \<and> ref_count (ctx watcher2) = 1 \<and> w2 = w1 \<and>
         runqueue w2 = runqueue w"
  using assms
  by (auto simp: libev_wait_rw_register_def Backend_rw_io_callback_def Let_def
      split: if_splits)

theorem rw_first_callback_only_counts_witness:
  "ref_count (ctx (fst (libev_wait_rw_register 3 4 fresh_rw_io example_world))) = 2 \<and>
   ref_count (ctx (fst (Backend_rw_io_callback EV_READ
      (fst (libev_wait_rw_register 3 4 fresh_rw_io example_world))
      (snd (libev_wait_rw_register 3 4 fresh_rw_io example_world))))) = 1 \<and>
   runqueue (snd (Backend_rw_io_callback EV_READ
      (fst (libev_wait_rw_register 3 4 fresh_rw_io example_world))
      (snd (libev_wait_rw_register 3 4 fresh_rw_io example_world)))) = runqueue example_world"
proof -
  have h: "(3::int) \<noteq> - 1" "(4::int) \<noteq> - 1" by simp_all
  from rw_first_callback_only_counts [OF h surjective_pairing surjective_pairing]
  show ?thesis by blast
qed

text \<open>
  The claim as stated fails: fiber 1 waits on descriptors 3 and 4, the callback of the
  read side fires, and the run queue is still empty.
\<close>

theorem rw_first_callback_counterexample:
  "current_fiber example_world = 1 \<and>
   ctx_fiber (ctx (fst (libev_wait_rw_register 3 4 fresh_rw_io example_world))) = Some 1 \<and>
   io_watchers (snd (libev_wait_rw_register 3 4 fresh_rw_io example_world))
     = [(4, EV_WRITE), (3, EV_READ)] \<and>
   runqueue (snd (Backend_rw_io_callback EV_READ
      (fst (libev_wait_rw_register 3 4 fresh_rw_io example_world))
      (snd (libev_wait_rw_register 3 4 fresh_rw_io example_world)))) = []"
  by (simp add: libev_wait_rw_register_def Backend_rw_io_callback_def fresh_rw_io_def
      example_world_def Let_def)

section \<open>Failing system calls\<close>

lemma c_int_minus_one: "c_int (- 1) = - 1"
  by (simp add: c_int_def)

lemma read_loop_failure:
  assumes "sys_results w = Err e # rest"
  shows "read_loop fd dynamic_len read_to_eof buf_pos mem buf len total_c watcher w =
     (if e \<noteq> EWOULDBLOCK \<and> e \<noteq> EAGAIN then Some (Inl (SystemCallError e), failed_call e rest w)
      else resumed (libev_wait_fd_with_watcher fd watcher EV_READ (failed_call e rest w))
             (\<lambda>watcher1 w2.
                read_loop fd dynamic_len read_to_eof buf_pos mem buf len total_c watcher1 w2))"
  using assms
  by (subst read_loop.simps) (simp add: sys_read_def failed_call_def resumed_def Let_def)



lemma write_loop_failure:
  assumes "sys_results w = Err e # rest" and "0 < left"
  shows "write_loop fd str buf left watcher w =
     (if e \<noteq> EWOULDBLOCK \<and> e \<noteq> EAGAIN then Some (Inl (SystemCallError e), failed_call e rest w)
      else resumed (libev_wait_fd_with_watcher fd watcher EV_WRITE (failed_call e rest w))
             (\<lambda>watcher1 w2. write_loop fd str buf left watcher1 w2))"
  using assms
  by (subst write_loop.simps) (simp add: sys_write_def failed_call_def resumed_def Let_def)

lemma send_loop_failure:
  assumes "sys_results w = Err e # rest" and "0 < left"
  shows "send_loop fd str buf left flags_int watcher w =
     (if e \<noteq> EWOULDBLOCK \<and> e \<noteq> EAGAIN then Some (Inl (SystemCallError e), failed_call e rest w)
      else resumed (libev_wait_fd_with_watcher fd watcher EV_WRITE (failed_call e rest w))
             (\<lambda>watcher1 w2. send_loop fd str buf left flags_int watcher1 w2))"
  using assms
  by (subst send_loop.simps)
    (simp add: sys_send_def sys_write_def failed_call_def resumed_def Let_def)




lemma splice_loop_failure:
  assumes "sys_results w = Err e # rest"
  shows "splice_loop src_fd dest_fd maxlen watcher w =
     (if e \<noteq> EWOULDBLOCK \<and> e \<noteq> EAGAIN then Some (Inl (SystemCallError e), failed_call e rest w)
      else resumed (libev_wait_rw_fd_with_watcher src_fd dest_fd watcher (failed_call e rest w))
             (\<lambda>watcher1 w2. splice_loop src_fd dest_fd maxlen watcher1 w2))"
  using assms
  by (subst splice_loop.simps)
    (simp add: sys_splice_def failed_call_def resumed_def c_int_minus_one Let_def)


lemma Backend_connect_failure:
  assumes "sys_results w = Err e # rest"
  shows "Backend_connect sock host port w =
     (if e \<noteq> EINPROGRESS then Some (Inl (SystemCallError e), failed_call e rest w)
      else resumed (libev_wait_fd_with_watcher (read_fd sock) \<lparr>io_fiber = None, io_watch = None\<rparr>
                      EV_WRITE (failed_call e rest w))
             (\<lambda>watcher1 w2.
                Some (Inr (VIO (case ivar_io sock of None \<Rightarrow> sock | Some u \<Rightarrow> u)), w2)))"
  using assms
  by (simp add: Backend_connect_def sys_connect_def failed_call_def resumed_def Let_def
      read_fd_def)








lemma resume_values_failed_call [simp]:
  "resume_values (failed_call e rest w) = resume_values w"
  by (simp add: failed_call_def)









text \<open>
  A framing string of \<^verbatim>\<open>splice_chunks\<close> is written with an \<open>err\<close> of the block: when that
  write fails, the label \<^verbatim>\<open>syscallerror\<close> raises with the function's \<open>err\<close>, which is 0
  after the \<^verbatim>\<open>splice\<close> that went before. Here the write of the postfix fails with
  \<^verbatim>\<open>EPIPE\<close>.
\<close>

lemma splice_chunks_postfix_failure_example:
  "map_option fst
     (Backend_splice_chunks (IO 4 None None) (IO 5 None None) None (Some ''>'') F_nil F_nil 3
        (example_world\<lparr>sys_results := [Ok 0, Ok 0, Err 32]\<rparr>)) =
   Some (Inl (SystemCallError 0))"
  by (simp add: Backend_splice_chunks_def sys_pipe_def step_bind_def splice_chunks_write_def
      splice_chunks_write_loop.simps splice_chunks_loop.simps splice_chunks_iteration_def
      splice_chunks_splice_def splice_chunks_splice_loop.simps
      splice_chunks_write_framing_def framing_str_def sys_write_def sys_splice_def transmit_def
      splice_chunks_exit_def sys_close_def example_world_def
      rb_io_get_write_io_def c_int_def EWOULDBLOCK_def EAGAIN_def Let_def)

lemma Backend_wait_io_no_system_call:
  "Backend_wait_io io_arg write w = Some (r, w') \<Longrightarrow> sys_results w' = sys_results w"
  by (auto simp: Backend_wait_io_def libev_wait_fd_def Let_def
      dest!: libev_wait_fd_sys_results split: option.splits if_splits)




text \<open>
  Claim C6, as the code has it. No operation treats \<^verbatim>\<open>EINTR\<close> apart: a system call that
  fails with it is not tried again. \<^verbatim>\<open>read\<close>, \<^verbatim>\<open>recv\<close>, \<^verbatim>\<open>write\<close>, \<^verbatim>\<open>send\<close>, \<^verbatim>\<open>splice\<close> and
  \<^verbatim>\<open>connect\<close> raise it as a system call error, at the first call and at any later pass of
  their loops; the system calls and the resume values still to come are left unused.
\<close>

theorem eintr_is_raised:
  assumes "sys_results w = Err EINTR # rest"
  shows
    "Backend_read io_arg str length_arg to_eof pos w =
       Some (Inl (SystemCallError EINTR), failed_call EINTR rest w) \<and>
     Backend_recv io_arg str length_arg pos w =
       Some (Inl (SystemCallError EINTR), failed_call EINTR rest w) \<and>
     (s \<noteq> [] \<longrightarrow>
        Backend_write io_arg s w = Some (Inl (SystemCallError EINTR), failed_call EINTR rest w) \<and>
        Backend_send io_arg s flags_int w =
          Some (Inl (SystemCallError EINTR), failed_call EINTR rest w)) \<and>
     Backend_splice src dest maxlen w =
       Some (Inl (SystemCallError EINTR), failed_call EINTR rest w) \<and>
     Backend_connect sock host port w =
       Some (Inl (SystemCallError EINTR), failed_call EINTR rest w) \<and>
     read_loop fd dynamic_len read_to_eof buf_pos mem buf len total_c watcher w =
       Some (Inl (SystemCallError EINTR), failed_call EINTR rest w) \<and>
     (0 < left \<longrightarrow>
        write_loop fd s buf left watcher w =
          Some (Inl (SystemCallError EINTR), failed_call EINTR rest w) \<and>
        send_loop fd s buf left flags_int watcher w =
          Some (Inl (SystemCallError EINTR), failed_call EINTR rest w)) \<and>
     splice_loop fd fd2 maxlen rw_watcher w =
       Some (Inl (SystemCallError EINTR), failed_call EINTR rest w) \<and>
     sys_results (failed_call EINTR rest w) = rest \<and>
     resume_values (failed_call EINTR rest w) = resume_values w"
proof -
  have ne: "EINTR \<noteq> EWOULDBLOCK" "EINTR \<noteq> EAGAIN" "EINTR \<noteq> EINPROGRESS"
    by (simp_all add: EINTR_def EWOULDBLOCK_def EAGAIN_def EINPROGRESS_def)
  have rl: "read_loop a b c d m f g h i w =
       Some (Inl (SystemCallError EINTR), failed_call EINTR rest w)" for a b c d m f g h i
    by (simp add: read_loop_failure [OF assms] ne)
  have wl: "0 < l \<Longrightarrow> write_loop a b c l i w =
       Some (Inl (SystemCallError EINTR), failed_call EINTR rest w)" for a b c l i
    by (simp add: write_loop_failure [OF assms] ne)
  have sl: "0 < l \<Longrightarrow> send_loop a b c l f i w =
       Some (Inl (SystemCallError EINTR), failed_call EINTR rest w)" for a b c l f i
    by (simp add: send_loop_failure [OF assms] ne)
  have pl: "splice_loop a b c i w =
       Some (Inl (SystemCallError EINTR), failed_call EINTR rest w)" for a b c i
    by (simp add: splice_loop_failure [OF assms] ne)
  have br: "Backend_read io_arg str length_arg t pos w =
       Some (Inl (SystemCallError EINTR), failed_call EINTR rest w)" for t
    by (simp add: Backend_read_def Let_def rl)
  have bw: "Backend_write io_arg s w =
       Some (Inl (SystemCallError EINTR), failed_call EINTR rest w)" if "s \<noteq> []"
    using that by (simp add: Backend_write_def Let_def wl)
  have bs: "Backend_send io_arg s flags_int w =
       Some (Inl (SystemCallError EINTR), failed_call EINTR rest w)" if "s \<noteq> []"
    using that by (simp add: Backend_send_def Let_def sl)
  have bp: "Backend_splice src dest maxlen w =
       Some (Inl (SystemCallError EINTR), failed_call EINTR rest w)"
    by (simp add: Backend_splice_def Let_def pl)
  have bc: "Backend_connect sock host port w =
       Some (Inl (SystemCallError EINTR), failed_call EINTR rest w)"
    by (simp add: Backend_connect_failure [OF assms] ne)
  show ?thesis
    using rl wl sl pl br bw bs bp bc by (simp add: Backend_recv_def failed_call_def)
qed

theorem eintr_is_raised_witness:
  "Backend_write (IO 5 None None) ''hello''
     (example_world\<lparr>sys_results := [Err EINTR, Ok 5], resume_values := [Qnil]\<rparr>) =
   Some (Inl (SystemCallError EINTR),
     failed_call EINTR [Ok 5]
       (example_world\<lparr>sys_results := [Err EINTR, Ok 5], resume_values := [Qnil]\<rparr>)) \<and>
   sys_results (failed_call EINTR [Ok 5]
       (example_world\<lparr>sys_results := [Err EINTR, Ok 5], resume_values := [Qnil]\<rparr>)) = [Ok 5]"
  using eintr_is_raised [where w = "example_world\<lparr>sys_results := [Err EINTR, Ok 5], resume_values := [Qnil]\<rparr>"
      and rest = "[Ok 5]" and s = "''hello''" and io_arg = "IO 5 None None"]
  by simp

text \<open>
  The claim as stated fails: a \<^verbatim>\<open>read\<close> whose first system call is interrupted raises,
  although the next call would have delivered five bytes.
\<close>

theorem eintr_counterexample:
  "Backend_read (IO 4 None None) None (Some 10) Qnil 0
     (example_world\<lparr>sys_results := [Err EINTR, Ok 5], resume_values := [Qnil],
        readable := (\<lambda>fd. [])(4 := ''hello'')\<rparr>) =
   Some (Inl (SystemCallError EINTR),
     example_world\<lparr>sys_results := [Ok 5], resume_values := [Qnil], errno := EINTR,
        readable := (\<lambda>fd. [])(4 := ''hello''), op_count := 1\<rparr>)"
  by (simp add: Backend_read_def read_loop.simps sys_read_def example_world_def
      EINTR_def EAGAIN_def EWOULDBLOCK_def read_buf_pos_def io_setstrbuf_def Let_def)

section \<open>Properties of chain\<close>

lemma chain_loop_append:
  "chain_loop (ops @ later) result w =
     (case chain_loop ops result w of
        None \<Rightarrow> None
      | Some (Inl e, w1) \<Rightarrow> Some (Inl e, w1)
      | Some (Inr r, w1) \<Rightarrow> chain_loop later r w1)"
  by (induction ops arbitrary: result w) (auto split: option.splits sum.splits)

lemma chain_op_unknown:
  "\<not> known_op op \<Longrightarrow> chain_op op w = Some (Inl InvalidArgument, w)"
  by (cases op)
    (auto simp: known_op_def chain_op_def RARRAY_AREF_def SYM_write_def SYM_send_def
      SYM_splice_def Let_def)

lemma chain_op_known:
  "chain_op [VSym ''write'', VIO x, VStr s] w = Backend_write x s w"
  "chain_op [VSym ''send'', VIO x, VStr s, VInt flags_int] w = Backend_send x s flags_int w"
  "chain_op [VSym ''splice'', VIO src, VIO dest, VInt maxlen] w = Backend_splice src dest maxlen w"
  by (simp_all add: chain_op_def RARRAY_AREF_def SYM_write_def SYM_send_def SYM_splice_def
      Backend_write_val_def Backend_send_val_def Backend_splice_val_def Let_def)

text \<open>
  Claim C9. An empty chain returns \<^verbatim>\<open>nil\<close>. A chain of one operation is that operation:
  \<^verbatim>\<open>write\<close>, \<^verbatim>\<open>send\<close> or \<^verbatim>\<open>splice\<close> on the operation's arguments. A longer chain runs its
  first operations and then the rest, in the environment the first ones left: an exception
  ends the chain, and the result is that of the last operation. An operation of unknown
  kind, or of the wrong arity for its kind, raises InvalidArgument when the chain reaches
  it, after the operations before it and without running those after it.
\<close>

theorem Backend_chain_in_order:
  "Backend_chain [] w = Some (Inr Qnil, w) \<and>
   Backend_chain [op] w = chain_op op w \<and>
   chain_op [VSym ''write'', VIO x, VStr s] w = Backend_write x s w \<and>
   chain_op [VSym ''send'', VIO x, VStr s, VInt flags_int] w = Backend_send x s flags_int w \<and>
   chain_op [VSym ''splice'', VIO src, VIO dest, VInt maxlen] w = Backend_splice src dest maxlen w \<and>
   (ops \<noteq> [] \<longrightarrow>
      Backend_chain (ops @ later) w =
        (case Backend_chain ops w of
           None \<Rightarrow> None
         | Some (Inl e, w1) \<Rightarrow> Some (Inl e, w1)
         | Some (Inr r, w1) \<Rightarrow> if later = [] then Some (Inr r, w1) else Backend_chain later w1)) \<and>
   (\<not> known_op op \<longrightarrow>
      chain_op op w = Some (Inl InvalidArgument, w) \<and>
      Backend_chain (op # later) w = Some (Inl InvalidArgument, w) \<and>
      (ops \<noteq> [] \<and> Backend_chain ops w = Some (Inr r, w') \<longrightarrow>
         Backend_chain (ops @ op # later) w = Some (Inl InvalidArgument, w')))"
proof (intro conjI impI)
  show "Backend_chain [] w = Some (Inr Qnil, w)"
    by (simp add: Backend_chain_def)
  show "Backend_chain [op] w = chain_op op w"
    by (auto simp: Backend_chain_def split: option.splits sum.splits)
  show "chain_op [VSym ''write'', VIO x, VStr s] w = Backend_write x s w"
    by (rule chain_op_known)
  show "chain_op [VSym ''send'', VIO x, VStr s, VInt flags_int] w = Backend_send x s flags_int w"
    by (rule chain_op_known)
  show "chain_op [VSym ''splice'', VIO src, VIO dest, VInt maxlen] w =
      Backend_splice src dest maxlen w"
    by (rule chain_op_known)
next
  assume "ops \<noteq> []"
  then show "Backend_chain (ops @ later) w =
        (case Backend_chain ops w of
           None \<Rightarrow> None
         | Some (Inl e, w1) \<Rightarrow> Some (Inl e, w1)
         | Some (Inr r, w1) \<Rightarrow> if later = [] then Some (Inr r, w1) else Backend_chain later w1)"
    by (cases later)
      (auto simp: Backend_chain_def chain_loop_append split: option.splits sum.splits)
next
  assume u: "\<not> known_op op"
  then show "chain_op op w = Some (Inl InvalidArgument, w)"
    by (rule chain_op_unknown)
  from u show "Backend_chain (op # later) w = Some (Inl InvalidArgument, w)"
    by (simp add: Backend_chain_def chain_op_unknown)
next
  assume u: "\<not> known_op op" and "ops \<noteq> [] \<and> Backend_chain ops w = Some (Inr r, w')"
  then show "Backend_chain (ops @ op # later) w = Some (Inl InvalidArgument, w')"
    by (auto simp: Backend_chain_def chain_loop_append chain_op_unknown)
qed

lemma Backend_chain_example:
  "Backend_chain
     [[VSym ''write'', VIO (IO 5 None None), VStr ''GET ''],
      [VSym ''send'', VIO (IO 5 None None), VStr ''/'', VInt 0]]
     (example_world\<lparr>sys_results := [Ok 4, Ok 1], resume_values := [Qnil, Qnil]\<rparr>) =
   Some (Inr (VInt 1),
     example_world\<lparr>sys_results := [], resume_values := [],
       written := (\<lambda>fd. [])(5 := ''GET /''), op_count := 2\<rparr>)"
  by (simp add: Backend_chain_def chain_op_def RARRAY_AREF_def SYM_write_def SYM_send_def
      SYM_splice_def Backend_write_val_def Backend_send_val_def Backend_write_def Backend_send_def
      write_loop.simps send_loop.simps sys_send_def sys_write_def transmit_def example_world_def
      rb_io_get_write_io_def backend_snooze_def TEST_EXCEPTION_def INT2NUM_def c_int_def Let_def)

theorem Backend_chain_in_order_witness:
  "Backend_chain
     ([[VSym ''write'', VIO (IO 5 None None), VStr ''GET ''],
       [VSym ''send'', VIO (IO 5 None None), VStr ''/'', VInt 0]]
      @ [VSym ''write'', VIO (IO 5 None None)] # [[VSym ''write'', VIO (IO 5 None None), VStr ''x'']])
     (example_world\<lparr>sys_results := [Ok 4, Ok 1], resume_values := [Qnil, Qnil]\<rparr>) =
   Some (Inl InvalidArgument,
     example_world\<lparr>sys_results := [], resume_values := [],
       written := (\<lambda>fd. [])(5 := ''GET /''), op_count := 2\<rparr>)"
proof -
  have u: "\<not> known_op [VSym ''write'', VIO (IO 5 None None)]"
    by (simp add: known_op_def)
  have n: "[[VSym ''write'', VIO (IO 5 None None), VStr ''GET ''],
       [VSym ''send'', VIO (IO 5 None None), VStr ''/'', VInt 0]] \<noteq> []" by simp
  from Backend_chain_in_order [where op = "[VSym ''write'', VIO (IO 5 None None)]"
      and ops = "[[VSym ''write'', VIO (IO 5 None None), VStr ''GET ''],
       [VSym ''send'', VIO (IO 5 None None), VStr ''/'', VInt 0]]"
      and w = "example_world\<lparr>sys_results := [Ok 4, Ok 1], resume_values := [Qnil, Qnil]\<rparr>"
      and r = "VInt 1"
      and w' = "example_world\<lparr>sys_results := [], resume_values := [],
       written := (\<lambda>fd. [])(5 := ''GET /''), op_count := 2\<rparr>"
      and later = "[[VSym ''write'', VIO (IO 5 None None), VStr ''x'']]"]
    u n Backend_chain_example
  show ?thesis by blast
qed

section \<open>Properties of timeout\<close>

lemma Backend_timeout_unfold:
  "Backend_timeout mk duration exception move_on_value blk w =
     (case blk (timeout_armed duration w) of
        None \<Rightarrow> None
      | Some (Jumps tag, w1) \<Rightarrow> Some (Jumps tag, ev_timer_stop (timeout_watcher duration w) w1)
      | Some (Returns v, w1) \<Rightarrow>
          (if v = timeout_sentinel w then
             (if exception = Qnil
              then Some (Returns move_on_value, ev_timer_stop (timeout_watcher duration w) w1)
              else Some (Raises (mk exception), ev_timer_stop (timeout_watcher duration w) w1))
           else if TEST_EXCEPTION v
           then Some (Raises (RAISE_EXCEPTION v), ev_timer_stop (timeout_watcher duration w) w1)
           else Some (Returns v, ev_timer_stop (timeout_watcher duration w) w1))
      | Some (Raises e, w1) \<Rightarrow>
          (if VExc e = timeout_sentinel w then
             (if exception = Qnil
              then Some (Returns move_on_value, ev_timer_stop (timeout_watcher duration w) w1)
              else Some (Raises (mk exception), ev_timer_stop (timeout_watcher duration w) w1))
           else Some (Raises e, ev_timer_stop (timeout_watcher duration w) w1)))"
proof -
  have step: "Backend_timeout mk duration exception move_on_value blk w =
     (case rb_ensure (Backend_timeout_ensure_safe blk)
             (Backend_timeout_ensure (timeout_watcher duration w)) (timeout_armed duration w) of
        None \<Rightarrow> None
      | Some (Inl tag, w4) \<Rightarrow> Some (Jumps tag, w4)
      | Some (Inr result, w4) \<Rightarrow>
          if result = timeout_sentinel w then
            (if exception = Qnil then Some (Returns move_on_value, w4)
             else Some (Raises (mk exception), w4))
          else if TEST_EXCEPTION result then Some (Raises (RAISE_EXCEPTION result), w4)
          else Some (Returns result, w4))"
    unfolding Backend_timeout_def Let_def timeout_armed_def timeout_watcher_def
      timeout_sentinel_def ev_timer_start_def
    by simp
  show ?thesis
  proof (cases "blk (timeout_armed duration w)")
    case None
    then show ?thesis
      by (simp add: step rb_ensure_def Backend_timeout_ensure_safe_def)
  next
    case (Some p)
    obtain out w1 where p: "p = (out, w1)" by (cases p)
    show ?thesis
    proof (cases out)
      case (Returns v)
      with Some p show ?thesis
        by (simp add: step rb_ensure_def Backend_timeout_ensure_safe_def Backend_timeout_ensure_def)
    next
      case (Raises e)
      with Some p show ?thesis
        by (simp add: step rb_ensure_def Backend_timeout_ensure_safe_def Backend_timeout_ensure_def
            TEST_EXCEPTION_def RAISE_EXCEPTION_def)
    next
      case (Jumps tag)
      with Some p show ?thesis
        by (simp add: step rb_ensure_def Backend_timeout_ensure_safe_def Backend_timeout_ensure_def)
    qed
  qed
qed

text \<open>
  Claim C3, as the code has it. Whenever the protected block ends, by a value, an
  exception or a non-local exit, the timeout ends too and the timer it armed is no longer
  active. If the block's result, returned or raised, is the sentinel of this frame, the
  timeout returns \<open>move_on_value\<close> when the constructor is \<^verbatim>\<open>nil\<close> and otherwise raises the
  exception built from the constructor. A non-sentinel exception the block raises is raised
  unchanged, and a non-sentinel value that is no exception object is returned unchanged. A
  non-sentinel exception object that the block returns as its value is raised.
\<close>

theorem Backend_timeout_outcome:
  assumes "blk (timeout_armed duration w) = Some (out, w1)"
  shows "\<exists>res w'.
     Backend_timeout mk duration exception move_on_value blk w = Some (res, w') \<and>
     w' = ev_timer_stop (timeout_watcher duration w) w1 \<and>
     timeout_watcher duration w \<notin> timers w' \<and>
     (out = Returns (timeout_sentinel w) \<or> out = Raises (timeout_sentinel_exn w) \<longrightarrow>
        (exception = Qnil \<longrightarrow> res = Returns move_on_value) \<and>
        (exception \<noteq> Qnil \<longrightarrow> res = Raises (mk exception))) \<and>
     (\<forall>e. out = Raises e \<and> VExc e \<noteq> timeout_sentinel w \<longrightarrow> res = Raises e) \<and>
     (\<forall>v. out = Returns v \<and> v \<noteq> timeout_sentinel w \<and> \<not> TEST_EXCEPTION v \<longrightarrow> res = Returns v) \<and>
     (\<forall>e. out = Returns (VExc e) \<and> VExc e \<noteq> timeout_sentinel w \<longrightarrow> res = Raises e) \<and>
     (\<forall>tag. out = Jumps tag \<longrightarrow> res = Jumps tag)"
proof (cases out)
  case (Returns v)
  with assms show ?thesis
    by (auto simp: Backend_timeout_unfold ev_timer_stop_def timeout_sentinel_def
        timeout_sentinel_exn_def TEST_EXCEPTION_def RAISE_EXCEPTION_def)
next
  case (Raises e)
  with assms show ?thesis
    by (auto simp: Backend_timeout_unfold ev_timer_stop_def timeout_sentinel_def
        timeout_sentinel_exn_def TEST_EXCEPTION_def RAISE_EXCEPTION_def)
next
  case (Jumps tag)
  with assms show ?thesis
    by (auto simp: Backend_timeout_unfold ev_timer_stop_def timeout_sentinel_def
        timeout_sentinel_exn_def TEST_EXCEPTION_def RAISE_EXCEPTION_def)
qed


theorem Backend_timeout_outcome_witness:
  "Backend_timeout (\<lambda>ctor. OtherException ''timed out'') (1 / 20) Qnil (VInt 42)
     (\<lambda>w. Some (Raises (TimeoutException 0), w)) example_world =
   Some (Returns (VInt 42), example_world\<lparr>next_object := 1, op_count := 1\<rparr>) \<and>
   Backend_timeout (\<lambda>ctor. OtherException ''timed out'') (1 / 20) (VSym ''MyTimeout'') Qnil
     (\<lambda>w. Some (Raises (TimeoutException 0), w)) example_world =
   Some (Raises (OtherException ''timed out''), example_world\<lparr>next_object := 1, op_count := 1\<rparr>) \<and>
   Backend_timeout (\<lambda>ctor. OtherException ''timed out'') (1 / 20) (VSym ''MyTimeout'') Qnil
     (\<lambda>w. Some (Returns (VStr ''done''), w)) example_world =
   Some (Returns (VStr ''done''), example_world\<lparr>next_object := 1, op_count := 1\<rparr>)"
proof -
  have s: "timeout_sentinel_exn example_world = TimeoutException 0"
    "timeout_sentinel example_world = VExc (TimeoutException 0)"
    by (simp_all add: timeout_sentinel_exn_def timeout_sentinel_def example_world_def)
  have stop: "ev_timer_stop (timeout_watcher (1 / 20) example_world)
       (timeout_armed (1 / 20) example_world) = example_world\<lparr>next_object := 1, op_count := 1\<rparr>"
    by (simp add: ev_timer_stop_def timeout_armed_def timeout_watcher_def example_world_def)
  note t1 = Backend_timeout_outcome [where blk = "\<lambda>w. Some (Raises (TimeoutException 0), w)"
      and duration = "1 / 20" and w = example_world and out = "Raises (TimeoutException 0)"
      and ?w1.0 = "timeout_armed (1 / 20) example_world"
      and mk = "\<lambda>ctor. OtherException ''timed out''" and exception = Qnil
      and move_on_value = "VInt 42"]
  note t2 = Backend_timeout_outcome [where blk = "\<lambda>w. Some (Raises (TimeoutException 0), w)"
      and duration = "1 / 20" and w = example_world and out = "Raises (TimeoutException 0)"
      and ?w1.0 = "timeout_armed (1 / 20) example_world"
      and mk = "\<lambda>ctor. OtherException ''timed out''" and exception = "VSym ''MyTimeout''"
      and move_on_value = Qnil]
  note t3 = Backend_timeout_outcome [where blk = "\<lambda>w. Some (Returns (VStr ''done''), w)"
      and duration = "1 / 20" and w = example_world and out = "Returns (VStr ''done'')"
      and ?w1.0 = "timeout_armed (1 / 20) example_world"
      and mk = "\<lambda>ctor. OtherException ''timed out''" and exception = "VSym ''MyTimeout''"
      and move_on_value = Qnil]
  from t1 t2 t3 show ?thesis
    by (auto simp: s stop TEST_EXCEPTION_def)
qed

text \<open>
  The claim as stated fails: a block that returns an exception object, not the sentinel,
  as its value makes the timeout raise that object where the claim has it returned.
\<close>

theorem Backend_timeout_counterexample:
  "Backend_timeout (\<lambda>ctor. OtherException ''timed out'') 1 Qnil Qnil
     (\<lambda>w. Some (Returns (VExc (OtherException ''boom'')), w)) example_world =
   Some (Raises (OtherException ''boom''), example_world\<lparr>next_object := 1, op_count := 1\<rparr>)"
  by (simp add: Backend_timeout_unfold timeout_armed_def timeout_watcher_def timeout_sentinel_def
      ev_timer_stop_def TEST_EXCEPTION_def RAISE_EXCEPTION_def example_world_def)

section \<open>Properties of the timer loop\<close>

lemma bit_length_le: "0 \<le> n \<Longrightarrow> n < 2 ^ k \<Longrightarrow> bit_length n \<le> int k"
proof (induction k arbitrary: n)
  case 0
  then show ?case by (subst bit_length.simps) simp
next
  case (Suc k)
  have "0 \<le> n div 2" "n div 2 < 2 ^ k" using Suc.prems by simp_all
  from Suc.IH [OF this] show ?case by (subst bit_length.simps) simp
qed

text \<open>Addition and subtraction of integers are exact while the result is below \<open>2 ^ 53\<close>.\<close>

lemma round_double_int: "\<bar>m\<bar> < 2 ^ 53 \<Longrightarrow> round_double m 0 = Finite m 0"
proof -
  assume "\<bar>m\<bar> < 2 ^ 53"
  then have "bit_length \<bar>m\<bar> \<le> 53"
    using bit_length_le [of "\<bar>m\<bar>" 53] by simp
  then show ?thesis
    by (cases "m < 0") (simp_all add: round_double_def Let_def max_def)
qed

lemma double_add_int:
  "\<bar>a + b\<bar> < 2 ^ 53 \<Longrightarrow> double_add (Finite a 0) (Finite b 0) = Finite (a + b) 0"
  by (simp add: round_double_int)

lemma double_sub_int:
  "\<bar>a - b\<bar> < 2 ^ 53 \<Longrightarrow> double_sub (Finite a 0) (Finite b 0) = Finite (a - b) 0"
  by (simp add: double_sub_def round_double_int)

lemma advanced_Suc: "advanced i (Suc k) x = advanced i k (double_add x i)"
  using funpow_swap1 [of "\<lambda>x. double_add x i" k x] by (simp add: advanced_def)

lemma advance_next_time_result:
  assumes "advance_next_time next_time interval_d now = Some r"
  shows "\<exists>k. 0 < k \<and> r = advanced interval_d k next_time \<and> \<not> double_le r now \<and>
     (\<forall>j. 0 < j \<and> j < k \<longrightarrow> double_le (advanced interval_d j next_time) now)"
proof -
  let ?P = "\<lambda>nt i nw y. \<exists>k. 0 < k \<and> y = advanced i k nt \<and> \<not> double_le y nw \<and>
     (\<forall>j. 0 < j \<and> j < k \<longrightarrow> double_le (advanced i j nt) nw)"
  have "?P next_time interval_d now r"
  proof (rule advance_next_time.raw_induct [where P = ?P, OF _ assms], goal_cases)
    case (1 f nt i nw y)
    show ?case
    proof (cases "double_le (double_add nt i) nw")
      case True
      with "1"(2) have "f (double_add nt i) i nw = Some y"
        by (simp add: Let_def)
      from "1"(1) [OF this] obtain k where k: "0 < k" "y = advanced i k (double_add nt i)"
        "\<not> double_le y nw"
        and m: "\<forall>j. 0 < j \<and> j < k \<longrightarrow> double_le (advanced i j (double_add nt i)) nw"
        by blast
      have "double_le (advanced i j nt) nw" if "0 < j \<and> j < Suc k" for j
      proof (cases j)
        case 0
        with that show ?thesis by simp
      next
        case (Suc j')
        show ?thesis
        proof (cases "j' = 0")
          case True
          with Suc True \<open>double_le (double_add nt i) nw\<close> show ?thesis
            by (simp add: advanced_def)
        next
          case False
          with m that Suc show ?thesis by (simp add: advanced_Suc)
        qed
      qed
      with k show ?thesis
        by (intro exI [of _ "Suc k"]) (simp add: advanced_Suc)
    next
      case False
      with "1"(2) have "y = double_add nt i" by (simp add: Let_def)
      with False show ?thesis
        by (intro exI [of _ 1]) (simp add: advanced_def)
    qed
  qed
  then show ?thesis .
qed

lemma advance_next_time_returns:
  "0 < k \<Longrightarrow> \<not> double_le (advanced interval_d k next_time) now \<Longrightarrow>
   \<exists>r. advance_next_time next_time interval_d now = Some r"
proof (induction k arbitrary: next_time)
  case 0
  then show ?case by simp
next
  case (Suc k)
  show ?case
  proof (cases "double_le (double_add next_time interval_d) now")
    case False
    then show ?thesis
      by (subst advance_next_time.simps) (simp add: Let_def)
  next
    case True
    with Suc.prems(2) have "0 < k"
      by (cases k) (simp_all add: advanced_def)
    moreover have "\<not> double_le (advanced interval_d k (double_add next_time interval_d)) now"
      using Suc.prems(2) by (simp add: advanced_Suc)
    ultimately obtain r where
      "advance_next_time (double_add next_time interval_d) interval_d now = Some r"
      using Suc.IH by blast
    with True show ?thesis
      by (subst advance_next_time.simps) (simp add: Let_def)
  qed
qed

lemma double_not_le:
  "\<not> double_le x y \<Longrightarrow> x \<noteq> NaN \<Longrightarrow> y \<noteq> NaN \<Longrightarrow> double_lt y x"
  by (cases x; cases y) (auto simp: Let_def min.commute)

lemma timer_loop_body_advance:
  "timer_loop_body interval_d next_time t w = Some (Inr next_time', w') \<Longrightarrow>
   advance_next_time (deadline interval_d next_time t) interval_d (current_time w) = Some next_time' \<and>
   current_time w' = after_block t"
  by (auto simp: timer_loop_body_def deadline_def Let_def backend_await_def libev_timer_start_def
      libev_timer_stop_def current_time_def split: list.splits option.splits if_splits)

lemma timer_loop_body_goes_through:
  "resume_values w = v # vs \<Longrightarrow> \<not> TEST_EXCEPTION v \<Longrightarrow> block_raised t = None \<Longrightarrow>
   advance_next_time (deadline interval_d next_time t) interval_d (current_time w) = Some r \<Longrightarrow>
   \<exists>w1. timer_loop_body interval_d next_time t w = Some (Inr r, w1)"
  by (auto simp: timer_loop_body_def deadline_def Let_def backend_await_def libev_timer_start_def
      libev_timer_stop_def current_time_def)

text \<open>
  Claim C7, as the code has it. A pass of the loop that goes through has added the
  interval to \<open>next_time\<close>, starting from the deadline it slept until, at least once and
  then for as long as the sum was less than or equal to \<open>now\<close>; \<open>now\<close> is the time read at
  the start of the pass, before the sleep and the yield. The additions are those of
  doubles, rounded. So the new \<open>next_time\<close> is not less than or equal to that \<open>now\<close>: it is
  strictly greater unless one of the two is a NaN. The current time after the pass is
  what the clock reads once the caller's block has run. When the fiber is resumed normally
  and the block does not raise, the pass goes through exactly when some number of
  additions takes \<open>next_time\<close> beyond \<open>now\<close>.
\<close>

theorem timer_loop_next_time:
  "(timer_loop_body interval_d next_time t w = Some (Inr next_time', w') \<longrightarrow>
      (\<exists>k. 0 < k \<and> next_time' = advanced interval_d k (deadline interval_d next_time t) \<and>
         (\<forall>j. 0 < j \<and> j < k \<longrightarrow>
            double_le (advanced interval_d j (deadline interval_d next_time t)) (current_time w))) \<and>
      \<not> double_le next_time' (current_time w) \<and>
      (next_time' \<noteq> NaN \<and> current_time w \<noteq> NaN \<longrightarrow> double_lt (current_time w) next_time') \<and>
      current_time w' = after_block t) \<and>
   (resume_values w = v # vs \<and> \<not> TEST_EXCEPTION v \<and> block_raised t = None \<longrightarrow>
      ((\<exists>nt w1. timer_loop_body interval_d next_time t w = Some (Inr nt, w1)) \<longleftrightarrow>
       (\<exists>k. 0 < k \<and>
          \<not> double_le (advanced interval_d k (deadline interval_d next_time t)) (current_time w))))"
proof (intro conjI impI)
  assume a: "timer_loop_body interval_d next_time t w = Some (Inr next_time', w')"
  note adv = timer_loop_body_advance [OF a]
  from advance_next_time_result [OF adv [THEN conjunct1]] obtain k where
    k: "0 < k" "next_time' = advanced interval_d k (deadline interval_d next_time t)"
    "\<not> double_le next_time' (current_time w)"
    "\<forall>j. 0 < j \<and> j < k \<longrightarrow>
       double_le (advanced interval_d j (deadline interval_d next_time t)) (current_time w)"
    by blast
  from k(1,2,4)
  show "\<exists>k. 0 < k \<and> next_time' = advanced interval_d k (deadline interval_d next_time t) \<and>
         (\<forall>j. 0 < j \<and> j < k \<longrightarrow>
            double_le (advanced interval_d j (deadline interval_d next_time t)) (current_time w))"
    by blast
  from k(3) show "\<not> double_le next_time' (current_time w)" .
  from adv show "current_time w' = after_block t" by simp
  show "double_lt (current_time w) next_time'"
    if "next_time' \<noteq> NaN \<and> current_time w \<noteq> NaN"
    using double_not_le [OF k(3)] that by simp
next
  assume b: "resume_values w = v # vs \<and> \<not> TEST_EXCEPTION v \<and> block_raised t = None"
  show "(\<exists>nt w1. timer_loop_body interval_d next_time t w = Some (Inr nt, w1)) \<longleftrightarrow>
       (\<exists>k. 0 < k \<and>
          \<not> double_le (advanced interval_d k (deadline interval_d next_time t)) (current_time w))"
  proof
    assume "\<exists>nt w1. timer_loop_body interval_d next_time t w = Some (Inr nt, w1)"
    then obtain nt w1 where "timer_loop_body interval_d next_time t w = Some (Inr nt, w1)"
      by blast
    from advance_next_time_result [OF timer_loop_body_advance [OF this, THEN conjunct1]]
    show "\<exists>k. 0 < k \<and>
          \<not> double_le (advanced interval_d k (deadline interval_d next_time t)) (current_time w)"
      by blast
  next
    assume "\<exists>k. 0 < k \<and>
          \<not> double_le (advanced interval_d k (deadline interval_d next_time t)) (current_time w)"
    then obtain r where
      "advance_next_time (deadline interval_d next_time t) interval_d (current_time w) = Some r"
      using advance_next_time_returns by blast
    with b show "\<exists>nt w1. timer_loop_body interval_d next_time t w = Some (Inr nt, w1)"
      using timer_loop_body_goes_through by blast
  qed
qed

lemma advance_next_time_example:
  "advance_next_time (Finite 11 0) (Finite 1 0) (Finite 10 0) = Some (Finite 12 0)"
  by (subst advance_next_time.simps) (simp add: round_double_int)

lemma timer_loop_body_example:
  "timer_loop_body (Finite 1 0) (Finite 0 0)
     \<lparr>second_reading = Finite 10 0, after_sleep = Finite 11 0, after_block = Finite 16 0,
       block_raised = None\<rparr>
     (example_world\<lparr>resume_values := [Qnil], clock := Finite 10 0\<rparr>) =
   Some (Inr (Finite 12 0),
     example_world\<lparr>resume_values := [], clock := Finite 16 0, op_count := 1\<rparr>)"
  by (simp add: timer_loop_body_def Let_def backend_await_def libev_timer_start_def
      libev_timer_stop_def current_time_def example_world_def TEST_EXCEPTION_def
      advance_next_time_example double_sub_def round_double_int)

theorem timer_loop_next_time_witness:
  "timer_loop_body (Finite 1 0) (Finite 0 0)
     \<lparr>second_reading = Finite 10 0, after_sleep = Finite 11 0, after_block = Finite 16 0,
       block_raised = None\<rparr>
     (example_world\<lparr>resume_values := [Qnil], clock := Finite 10 0\<rparr>) =
   Some (Inr (Finite 12 0),
     example_world\<lparr>resume_values := [], clock := Finite 16 0, op_count := 1\<rparr>) \<and>
   \<not> double_le (Finite 12 0) (Finite 10 0) \<and> double_lt (Finite 10 0) (Finite 12 0) \<and>
   current_time (example_world\<lparr>resume_values := [], clock := Finite 16 0, op_count := 1\<rparr>) =
     Finite 16 0"
  using timer_loop_next_time [of "Finite 1 0" "Finite 0 0"
      "\<lparr>second_reading = Finite 10 0, after_sleep = Finite 11 0, after_block = Finite 16 0,
        block_raised = None\<rparr>"
      "example_world\<lparr>resume_values := [Qnil], clock := Finite 10 0\<rparr>" "Finite 12 0"
      "example_world\<lparr>resume_values := [], clock := Finite 16 0, op_count := 1\<rparr>"]
    timer_loop_body_example
  by (simp add: current_time_def example_world_def)

text \<open>
  The claim as stated fails: the interval is 1 and the first pass starts at time 10. The
  fiber sleeps until 11, the caller's block takes 5, and the pass ends at time 16 with
  \<open>next_time = 12\<close>, four behind the current time. All these numbers are doubles, and the
  additions are exact.
\<close>

theorem timer_loop_counterexample:
  "timer_loop_body (Finite 1 0) (Finite 0 0)
     \<lparr>second_reading = Finite 10 0, after_sleep = Finite 11 0, after_block = Finite 16 0,
       block_raised = None\<rparr>
     (example_world\<lparr>resume_values := [Qnil], clock := Finite 10 0\<rparr>) =
   Some (Inr (Finite 12 0),
     example_world\<lparr>resume_values := [], clock := Finite 16 0, op_count := 1\<rparr>) \<and>
   current_time (example_world\<lparr>resume_values := [Qnil], clock := Finite 10 0\<rparr>) = Finite 10 0 \<and>
   current_time (example_world\<lparr>resume_values := [], clock := Finite 16 0, op_count := 1\<rparr>) =
     Finite 16 0 \<and>
   \<not> double_lt (Finite 16 0) (Finite 12 0) \<and> double_le (Finite 12 0) (Finite 16 0)"
  by (simp add: timer_loop_body_def Let_def backend_await_def libev_timer_start_def
      libev_timer_stop_def current_time_def example_world_def TEST_EXCEPTION_def
      advance_next_time_example double_sub_def round_double_int)

text \<open>
  An interval too small to change \<open>next_time\<close>: \<open>2 ^ 27 + 2 ^ - 30\<close> rounds to \<open>2 ^ 27\<close>, so
  with \<open>now\<close> at \<open>2 ^ 27\<close> the \<^verbatim>\<open>do ... while\<close> never ends.
\<close>

lemma advance_next_time_absorbed:
  "advance_next_time (Finite 1 27) (Finite 1 (- 30)) (Finite 1 27) = None"
proof -
  have s1: "double_add (Finite 1 27) (Finite 1 (- 30)) = Finite 4503599627370496 (- 25)"
    by code_simp
  have s2: "double_add (Finite 4503599627370496 (- 25)) (Finite 1 (- 30)) =
      Finite 4503599627370496 (- 25)"
    by code_simp
  have absorbed: "advanced (Finite 1 (- 30)) (Suc k) (Finite 1 27) = Finite 4503599627370496 (- 25)"
    for k
    by (induction k) (simp_all add: advanced_def s1 s2 del: double_add.simps)
  have le: "double_le (Finite 4503599627370496 (- 25)) (Finite 1 27)"
    by code_simp
  show ?thesis
  proof (cases "advance_next_time (Finite 1 27) (Finite 1 (- 30)) (Finite 1 27)")
    case None
    then show ?thesis .
  next
    case (Some r)
    from advance_next_time_result [OF this] obtain k where
      "0 < k" "\<not> double_le (advanced (Finite 1 (- 30)) k (Finite 1 27)) (Finite 1 27)"
      by blast
    then show ?thesis
      using absorbed [of "k - 1"] le by simp
  qed
qed

section \<open>Properties of the chunked splice\<close>

lemma c_int_range: "- 2147483648 \<le> c_int n" "c_int n < 2147483648"
  by (simp_all add: c_int_def)

lemma c_int_add: "c_int (c_int a + b) = c_int (a + b)"
proof -
  have "(c_int a + b + 2147483648) mod 4294967296 =
        ((a + 2147483648) mod 4294967296 + b) mod 4294967296"
    by (simp add: c_int_def algebra_simps)
  also have "\<dots> = (a + 2147483648 + b) mod 4294967296"
    by (rule mod_add_left_eq)
  finally show ?thesis by (simp add: c_int_def algebra_simps)
qed






























end
